theory Spec2Isabelle
  imports
    Complex_Main
    "HOL-Library.Word"
    "HOL-Library.Multiset"
    "HOL-Library.AList"
    "HOL-Library.Char_ord"
    "HOL-Library.List_Lexorder"
begin

section \<open>The snapshot collector of the Syncthing dashboard\<close>

text \<open>
  A shallow embedding of \<^verbatim>\<open>internal/collector\<close> (the collector, its refresh and
  fallback policy, the rate computation, the snapshot builder and the alert derivation),
  of the payload types of \<^verbatim>\<open>internal/model\<close> and of the response types of
  \<^verbatim>\<open>internal/syncthing\<close>.

  Conventions of the embedding.
  \<^item> Go's \<^verbatim>\<open>int64\<close>, \<^verbatim>\<open>int\<close> and \<^verbatim>\<open>time.Duration\<close> are 64-bit words read
    as two's complement (\<open>sint\<close>, \<open><s\<close>); \<open>+\<close>, \<open>-\<close> and \<open>*\<close> wrap around as in Go.
  \<^item> Go's \<^verbatim>\<open>float64\<close> is idealised as \<open>real\<close>: rounding, infinities and NaN are
    not modelled.
  \<^item> A \<^verbatim>\<open>time.Time\<close> is the number of nanoseconds since Go's zero time (January 1 of
    year 1, 00:00:00 UTC), an \<open>int\<close>; \<^verbatim>\<open>IsZero\<close> holds of 0 only.
  \<^item> A Go string is a list of bytes; \<open><\<close> on strings is the lexicographic order on
    bytes, as Go's.
  \<^item> A Go map is an association list read by \<open>map_of\<close>; a missing key reads as the zero
    value of the element type. A nil slice and an empty slice are both \<open>[]\<close>.
  \<^item> An \<^verbatim>\<open>error\<close> is the text its \<^verbatim>\<open>Error()\<close> method returns; a call that can
    fail returns \<open>string + 'a\<close> with \<open>Inl\<close> for the error.
  \<^item> The mutex is not modelled: every operation below runs atomically on the collector
    state, which is also what the lock gives the fields that \<^verbatim>\<open>refresh\<close> assigns.
\<close>

type_synonym int64 = "64 word"
type_synonym Time = int
type_synonym Duration = "64 word"

subsection \<open>Functions of the Go standard library\<close>

text \<open>\<^verbatim>\<open>Time.IsZero\<close>, \<^verbatim>\<open>Time.Sub\<close> (which saturates at the least and the greatest
  duration) and \<^verbatim>\<open>Duration.Seconds\<close>.\<close>

definition IsZero :: "Time \<Rightarrow> bool" where
  "IsZero t \<longleftrightarrow> t = 0"

definition Sub :: "Time \<Rightarrow> Time \<Rightarrow> Duration" where
  "Sub t u = word_of_int (max (- (2 ^ 63)) (min (2 ^ 63 - 1) (t - u)))"

definition Seconds :: "Duration \<Rightarrow> real" where
  "Seconds d = real_of_int (sint d) / 1000000000"

definition float64 :: "int64 \<Rightarrow> real" where
  "float64 n = real_of_int (sint n)"

text \<open>\<^verbatim>\<open>strings.TrimSpace\<close>: leading and trailing white space, as Unicode defines it,
  is removed. On the bytes of a UTF-8 string a white space character is one of the six
  ASCII bytes below, or one of the two- and three-byte encodings of U+0085, U+00A0,
  U+1680, U+2000 to U+200A, U+2028, U+2029, U+202F, U+205F and U+3000.\<close>

definition asciiSpace :: "char \<Rightarrow> bool" where
  "asciiSpace c \<longleftrightarrow>
     c = CHR 0x09 \<or> c = CHR 0x0A \<or> c = CHR 0x0B \<or> c = CHR 0x0C \<or> c = CHR 0x0D \<or> c = CHR 0x20"

definition wideSpaces :: "string list" where
  "wideSpaces =
     [[CHR 0xC2, CHR 0x85], [CHR 0xC2, CHR 0xA0], [CHR 0xE1, CHR 0x9A, CHR 0x80],
      [CHR 0xE2, CHR 0x80, CHR 0x80], [CHR 0xE2, CHR 0x80, CHR 0x81],
      [CHR 0xE2, CHR 0x80, CHR 0x82], [CHR 0xE2, CHR 0x80, CHR 0x83],
      [CHR 0xE2, CHR 0x80, CHR 0x84], [CHR 0xE2, CHR 0x80, CHR 0x85],
      [CHR 0xE2, CHR 0x80, CHR 0x86], [CHR 0xE2, CHR 0x80, CHR 0x87],
      [CHR 0xE2, CHR 0x80, CHR 0x88], [CHR 0xE2, CHR 0x80, CHR 0x89],
      [CHR 0xE2, CHR 0x80, CHR 0x8A], [CHR 0xE2, CHR 0x80, CHR 0xA8],
      [CHR 0xE2, CHR 0x80, CHR 0xA9], [CHR 0xE2, CHR 0x80, CHR 0xAF],
      [CHR 0xE2, CHR 0x81, CHR 0x9F], [CHR 0xE3, CHR 0x80, CHR 0x80]]"

text \<open>The number of bytes of the white space character a string starts with (0 when it
  starts with none), and the same for the character it ends with.\<close>

definition leadingSpace :: "string \<Rightarrow> nat" where
  "leadingSpace s =
     (case s of
        [] \<Rightarrow> 0
      | c # _ \<Rightarrow>
          if asciiSpace c then 1
          else if take 2 s \<in> set wideSpaces then 2
          else if take 3 s \<in> set wideSpaces then 3
          else 0)"

definition trailingSpace :: "string \<Rightarrow> nat" where
  "trailingSpace s =
     (case rev s of
        [] \<Rightarrow> 0
      | c # _ \<Rightarrow>
          if asciiSpace c then 1
          else if drop (length s - 2) s \<in> set wideSpaces then 2
          else if drop (length s - 3) s \<in> set wideSpaces then 3
          else 0)"

function TrimLeft :: "string \<Rightarrow> string" where
  "TrimLeft s = (if leadingSpace s = 0 then s else TrimLeft (drop (leadingSpace s) s))"
  by pat_completeness auto
termination
proof (relation "measure length")
  fix s :: string
  assume nz: "leadingSpace s \<noteq> 0"
  then have "s \<noteq> []"
    by (auto simp: leadingSpace_def)
  with nz show "(drop (leadingSpace s) s, s) \<in> measure length"
    by simp
qed simp

function TrimRight :: "string \<Rightarrow> string" where
  "TrimRight s = (if trailingSpace s = 0 then s else TrimRight (take (length s - trailingSpace s) s))"
  by pat_completeness auto
termination
proof (relation "measure length")
  fix s :: string
  assume nz: "trailingSpace s \<noteq> 0"
  then have "s \<noteq> []"
    by (auto simp: trailingSpace_def)
  with nz show "(take (length s - trailingSpace s) s, s) \<in> measure length"
    by simp
qed simp

declare TrimLeft.simps [simp del]
declare TrimRight.simps [simp del]

definition TrimSpace :: "string \<Rightarrow> string" where
  "TrimSpace s = TrimRight (TrimLeft s)"

text \<open>\<^verbatim>\<open>strings.Join\<close>.\<close>

fun Join :: "string list \<Rightarrow> string \<Rightarrow> string" where
  "Join [] sep = []"
| "Join [x] sep = x"
| "Join (x # y # ys) sep = x @ sep @ Join (y # ys) sep"

text \<open>\<^verbatim>\<open>sort.Slice\<close> promises a sorted permutation and no stability. The collector is
  therefore parametrised by the sorting function; \<open>sortContract\<close> is what the library
  promises of it for a given \<^verbatim>\<open>less\<close> function. For slices of at most twelve elements Go's
  implementation runs the insertion sort \<^verbatim>\<open>insertionSortLessFunc\<close>, embedded below
  as one sorting function that keeps the contract: every element in turn is swapped
  towards the front while it is less than its left neighbour.\<close>

definition sortContract :: "(('a \<Rightarrow> 'a \<Rightarrow> bool) \<Rightarrow> 'a list \<Rightarrow> 'a list) \<Rightarrow> ('a \<Rightarrow> 'a \<Rightarrow> bool) \<Rightarrow> bool" where
  "sortContract srt lt \<longleftrightarrow>
     (\<forall>xs. mset (srt lt xs) = mset xs \<and> sorted_wrt (\<lambda>a b. \<not> lt b a) (srt lt xs))"

fun sinkLeft :: "('a \<Rightarrow> 'a \<Rightarrow> bool) \<Rightarrow> 'a \<Rightarrow> 'a list \<Rightarrow> 'a list" where
  "sinkLeft lt x [] = [x]"
| "sinkLeft lt x (y # ys) = (if lt x y then y # sinkLeft lt x ys else x # y # ys)"

definition insertionSortLessFunc :: "('a \<Rightarrow> 'a \<Rightarrow> bool) \<Rightarrow> 'a list \<Rightarrow> 'a list" where
  "insertionSortLessFunc lt xs = rev (foldl (\<lambda>acc x. sinkLeft lt x acc) [] xs)"

subsection \<open>The dashboard payload (\<^verbatim>\<open>internal/model\<close>)\<close>

text \<open>Fields that several Go structs share by name carry a prefix for their struct.\<close>

record DeviceStatus =
  ds_Name :: string
  ds_ID :: string
  ds_Version :: string
  ds_UptimeS :: int64
  ds_DownloadBPS :: real
  ds_UploadBPS :: real
  ds_LocalFilesTotal :: int64
  ds_LocalDirsTotal :: int64
  ds_LocalBytesTotal :: int64
  ds_ListenersOK :: int64
  ds_ListenersTotal :: int64
  ds_DiscoveryOK :: int64
  ds_DiscoveryTotal :: int64

record FolderStatus =
  fs_ID :: string
  fs_Label :: string
  fs_Path :: string
  fs_State :: string
  fs_GlobalFiles :: int64
  fs_LocalFiles :: int64
  fs_GlobalBytes :: int64
  fs_LocalBytes :: int64
  fs_NeedItems :: int64
  fs_NeedBytes :: int64
  fs_LocalChangesItems :: int64
  fs_CompletionPct :: "real option"
  fs_LastScanAt :: "Time option"

record RemoteDeviceStatus =
  rd_ID :: string
  rd_Name :: string
  rd_Connected :: bool
  rd_Address :: string
  rd_LastSeenAt :: "Time option"
  rd_InBytesTotal :: int64
  rd_OutBytesTotal :: int64

record Alert =
  Severity :: string
  Code :: string
  Message :: string
  SubjectID :: string

record DashboardSnapshot =
  GeneratedAt :: Time
  SourceOnline :: bool
  SourceError :: "string option"
  Device :: DeviceStatus
  Folders :: "FolderStatus list"
  Remotes :: "RemoteDeviceStatus list"
  Alerts :: "Alert list"
  Stale :: bool

text \<open>The zero values \<^verbatim>\<open>model.DeviceStatus{}\<close> and \<^verbatim>\<open>model.DashboardSnapshot{}\<close>.\<close>

definition zeroDeviceStatus :: DeviceStatus where
  "zeroDeviceStatus =
     \<lparr>ds_Name = [], ds_ID = [], ds_Version = [], ds_UptimeS = 0, ds_DownloadBPS = 0,
      ds_UploadBPS = 0, ds_LocalFilesTotal = 0, ds_LocalDirsTotal = 0, ds_LocalBytesTotal = 0,
      ds_ListenersOK = 0, ds_ListenersTotal = 0, ds_DiscoveryOK = 0, ds_DiscoveryTotal = 0\<rparr>"

definition zeroSnapshot :: DashboardSnapshot where
  "zeroSnapshot =
     \<lparr>GeneratedAt = 0, SourceOnline = False, SourceError = None, Device = zeroDeviceStatus,
      Folders = [], Remotes = [], Alerts = [], Stale = False\<rparr>"

subsection \<open>The upstream responses (\<^verbatim>\<open>internal/syncthing\<close>)\<close>

record ServiceStatus =
  ss_Error :: "string option"

record SystemStatusResponse =
  MyID :: string
  Uptime :: int64
  ConnectionServiceStatus :: "(string \<times> ServiceStatus) list"
  DiscoveryStatus :: "(string \<times> ServiceStatus) list"
  DiscoveryMethods :: int64
  DiscoveryErrors :: "(string \<times> string) list"

record SystemVersionResponse =
  ver_Version :: string
  ver_OS :: string
  ver_Arch :: string

record ConnectionTotals =
  ct_InBytesTotal :: int64
  ct_OutBytesTotal :: int64
  BitsPerSecondIn :: real
  BitsPerSecondOut :: real

record ConnectionDetails =
  cd_Address :: string
  cd_Connected :: bool
  cd_InBytesTotal :: int64
  cd_OutBytesTotal :: int64

record SystemConnectionsResponse =
  Total :: ConnectionTotals
  Connections :: "(string \<times> ConnectionDetails) list"

record DeviceStats =
  LastSeen :: string

record FolderStats =
  LastScan :: string

record ConfigDevice =
  DeviceID :: string
  cdev_Name :: string

record ConfigFolder =
  cf_ID :: string
  cf_Label :: string
  cf_Path :: string
  cf_Paused :: bool

record ConfigResponse =
  Devices :: "ConfigDevice list"
  cfg_Folders :: "ConfigFolder list"

record DBStatusResponse =
  db_GlobalFiles :: int64
  db_LocalFiles :: int64
  db_LocalDirectories :: int64
  db_GlobalBytes :: int64
  db_LocalBytes :: int64
  db_NeedFiles :: int64
  db_NeedDirectories :: int64
  db_NeedSymlinks :: int64
  db_NeedDeletes :: int64
  db_NeedBytes :: int64
  db_NeedTotalItems :: int64
  db_ReceiveOnlyTotalItems :: int64
  db_ReceiveOnlyChangedBytes :: int64
  db_State :: string

record DBCompletionResponse =
  Completion :: real
  comp_NeedBytes :: int64
  comp_NeedItems :: int64
  comp_GlobalBytes :: int64

definition zeroConnectionDetails :: ConnectionDetails where
  "zeroConnectionDetails =
     \<lparr>cd_Address = [], cd_Connected = False, cd_InBytesTotal = 0, cd_OutBytesTotal = 0\<rparr>"

definition zeroDeviceStats :: DeviceStats where
  "zeroDeviceStats = \<lparr>LastSeen = []\<rparr>"

definition zeroDBStatusResponse :: DBStatusResponse where
  "zeroDBStatusResponse =
     \<lparr>db_GlobalFiles = 0, db_LocalFiles = 0, db_LocalDirectories = 0, db_GlobalBytes = 0,
      db_LocalBytes = 0, db_NeedFiles = 0, db_NeedDirectories = 0, db_NeedSymlinks = 0,
      db_NeedDeletes = 0, db_NeedBytes = 0, db_NeedTotalItems = 0,
      db_ReceiveOnlyTotalItems = 0, db_ReceiveOnlyChangedBytes = 0, db_State = []\<rparr>"

text \<open>What the read-only client answers during one poll cycle: one result for each of the
  six plain endpoints and, for the two endpoints that take a folder, one result for each
  folder id. The HTTP transport behind the answers is outside the embedding.\<close>

record Client =
  GetSystemStatus :: "string + SystemStatusResponse"
  GetSystemVersion :: "string + SystemVersionResponse"
  GetSystemConnections :: "string + SystemConnectionsResponse"
  GetDeviceStats :: "string + (string \<times> DeviceStats) list"
  GetFolderStats :: "string + (string \<times> FolderStats) list"
  GetConfig :: "string + ConfigResponse"
  GetDBStatus :: "string \<Rightarrow> string + DBStatusResponse"
  GetDBCompletion :: "string \<Rightarrow> string + DBCompletionResponse"

text \<open>The library functions the collector is parametrised by: \<^verbatim>\<open>sort.Slice\<close> at the
  two element types it is called at, and \<^verbatim>\<open>time.Parse\<close> (layout first, then the
  value; the instant it returns is already the UTC instant).\<close>

record GoLib =
  sort_Slice_folders :: "(FolderStatus \<Rightarrow> FolderStatus \<Rightarrow> bool) \<Rightarrow> FolderStatus list \<Rightarrow> FolderStatus list"
  sort_Slice_remotes :: "(RemoteDeviceStatus \<Rightarrow> RemoteDeviceStatus \<Rightarrow> bool) \<Rightarrow> RemoteDeviceStatus list \<Rightarrow> RemoteDeviceStatus list"
  time_Parse :: "string \<Rightarrow> string \<Rightarrow> Time option"

subsection \<open>The collector\<close>

record Collector =
  pollInterval :: Duration
  snapshot :: DashboardSnapshot
  hasSnapshot :: bool
  lastGood :: DashboardSnapshot
  hasLastGood :: bool
  lastRateAt :: Time
  lastInTotal :: int64
  lastOutTotal :: int64

definition New :: "Duration \<Rightarrow> Collector" where
  "New interval =
     \<lparr>pollInterval = interval, snapshot = zeroSnapshot, hasSnapshot = False,
      lastGood = zeroSnapshot, hasLastGood = False, lastRateAt = 0, lastInTotal = 0,
      lastOutTotal = 0\<rparr>"

definition Ready :: "Collector \<Rightarrow> bool" where
  "Ready c = hasSnapshot c"

text \<open>\<^verbatim>\<open>Snapshot\<close>; the second argument is the wall clock at the time of the read,
  from which \<^verbatim>\<open>time.Since\<close> subtracts.\<close>

definition Snapshot :: "Collector \<Rightarrow> Time \<Rightarrow> DashboardSnapshot \<times> bool" where
  "Snapshot c clock =
     (if \<not> hasSnapshot c then (zeroSnapshot, False)
      else
        let out = snapshot c;
            out = (if \<not> IsZero (GeneratedAt out) \<and> 2 * pollInterval c <s Sub clock (GeneratedAt out)
                   then out\<lparr>Stale := True\<rparr> else out);
            out = (if \<not> SourceOnline out then out\<lparr>Stale := True\<rparr> else out)
        in (out, True))"

text \<open>\<^verbatim>\<open>currentRates\<close> returns the two rates and the collector with its counter
  state as the call leaves it.\<close>

definition currentRates :: "Collector \<Rightarrow> ConnectionTotals \<Rightarrow> Time \<Rightarrow> (real \<times> real) \<times> Collector" where
  "currentRates c totals now =
     (if BitsPerSecondIn totals > 0 \<or> BitsPerSecondOut totals > 0 then
        ((BitsPerSecondIn totals / 8, BitsPerSecondOut totals / 8), c)
      else if IsZero (lastRateAt c) then
        ((BitsPerSecondIn totals / 8, BitsPerSecondOut totals / 8),
         c\<lparr>lastRateAt := now, lastInTotal := ct_InBytesTotal totals,
           lastOutTotal := ct_OutBytesTotal totals\<rparr>)
      else
        let elapsed = Seconds (Sub now (lastRateAt c)) in
        if elapsed \<le> 0 then
          ((BitsPerSecondIn totals / 8, BitsPerSecondOut totals / 8), c)
        else
          let inDelta = ct_InBytesTotal totals - lastInTotal c;
              outDelta = ct_OutBytesTotal totals - lastOutTotal c;
              c' = c\<lparr>lastRateAt := now, lastInTotal := ct_InBytesTotal totals,
                     lastOutTotal := ct_OutBytesTotal totals\<rparr>
          in
            if inDelta <s 0 \<or> outDelta <s 0 then
              ((BitsPerSecondIn totals / 8, BitsPerSecondOut totals / 8), c')
            else ((float64 inDelta / elapsed, float64 outDelta / elapsed), c'))"

text \<open>\<^verbatim>\<open>serviceHealthCount\<close> and \<^verbatim>\<open>discoveryHealthCount\<close>. A Go map holds one
  entry for each key: of an association list, the first entry of each key counts.\<close>

definition serviceHealthCount :: "(string \<times> ServiceStatus) list \<Rightarrow> int64 \<times> int64" where
  "serviceHealthCount statusByKey =
     (let entries = AList.clearjunk statusByKey;
          total = (of_nat (length entries) :: int64)
      in if total = 0 then (0, 0)
         else
           (of_nat (length (filter
              (\<lambda>(key, status). case ss_Error status of None \<Rightarrow> True | Some e \<Rightarrow> TrimSpace e = [])
              entries)),
            total))"

definition discoveryHealthCount :: "SystemStatusResponse \<Rightarrow> int64 \<times> int64" where
  "discoveryHealthCount status =
     (let (ok, total) = serviceHealthCount (DiscoveryStatus status) in
      if 0 <s total then (ok, total)
      else if DiscoveryMethods status \<le>s 0 then (0, 0)
      else
        let errorCount = (of_nat (length (AList.clearjunk (DiscoveryErrors status))) :: int64);
            errorCount = (if DiscoveryMethods status <s errorCount then DiscoveryMethods status
                          else errorCount)
        in (DiscoveryMethods status - errorCount, DiscoveryMethods status))"

text \<open>\<^verbatim>\<open>deriveAlerts\<close>: its two loops, each appending to the alerts so far.\<close>

fun remoteAlerts :: "Alert list \<Rightarrow> RemoteDeviceStatus list \<Rightarrow> Alert list" where
  "remoteAlerts alerts [] = alerts"
| "remoteAlerts alerts (remote # rest) =
     (if rd_Connected remote then remoteAlerts alerts rest
      else remoteAlerts
        (alerts @
          [\<lparr>Severity = ''critical'', Code = ''REMOTE_DISCONNECTED'',
            Message = ''Remote device '' @ rd_Name remote @ '' is disconnected'',
            SubjectID = rd_ID remote\<rparr>])
        rest)"

fun folderAlerts :: "Alert list \<Rightarrow> FolderStatus list \<Rightarrow> Alert list" where
  "folderAlerts alerts [] = alerts"
| "folderAlerts alerts (folder # rest) =
     (if fs_State folder = ''error'' then
        folderAlerts
          (alerts @
            [\<lparr>Severity = ''critical'', Code = ''FOLDER_ERROR'',
              Message = ''Folder '' @ fs_Label folder @ '' reports error state'',
              SubjectID = fs_ID folder\<rparr>])
          rest
      else if 0 <s fs_NeedItems folder \<or> 0 <s fs_NeedBytes folder then
        folderAlerts
          (alerts @
            [\<lparr>Severity = ''warn'', Code = ''FOLDER_OUT_OF_SYNC'',
              Message = ''Folder '' @ fs_Label folder @ '' has pending sync items'',
              SubjectID = fs_ID folder\<rparr>])
          rest
      else folderAlerts alerts rest)"

definition deriveAlerts :: "RemoteDeviceStatus list \<Rightarrow> FolderStatus list \<Rightarrow> Alert list" where
  "deriveAlerts remotes folders = folderAlerts (remoteAlerts [] remotes) folders"

text \<open>\<^verbatim>\<open>parseSyncthingTime\<close>: the first of the three layouts that parses.\<close>

definition formats :: "string list" where
  "formats =
     [''2006-01-02T15:04:05.999999999Z07:00'', ''2006-01-02T15:04:05Z07:00'',
      ''2006-01-02T15:04:05.999999999Z0700'']"

fun firstParsed :: "(string \<Rightarrow> string \<Rightarrow> Time option) \<Rightarrow> string list \<Rightarrow> string \<Rightarrow> Time option" where
  "firstParsed parse [] v = None"
| "firstParsed parse (format # rest) v =
     (case parse format v of Some parsed \<Rightarrow> Some parsed | None \<Rightarrow> firstParsed parse rest v)"

definition parseSyncthingTime :: "GoLib \<Rightarrow> string \<Rightarrow> Time option" where
  "parseSyncthingTime L v0 =
     (let v = TrimSpace v0 in if v = [] then None else firstParsed (time_Parse L) formats v)"

text \<open>\<^verbatim>\<open>collect\<close>, block by block. First the loop that fetches the DB status of
  every configured folder into the map \<^verbatim>\<open>dbStatuses\<close>, and stops at the first error.\<close>

fun fetchDBStatuses ::
  "Client \<Rightarrow> (string \<times> DBStatusResponse) list \<Rightarrow> ConfigFolder list \<Rightarrow> string + (string \<times> DBStatusResponse) list" where
  "fetchDBStatuses cl dbStatuses [] = Inr dbStatuses"
| "fetchDBStatuses cl dbStatuses (folder # rest) =
     (case GetDBStatus cl (cf_ID folder) of
        Inl dbErr \<Rightarrow> Inl (''get db status for folder '' @ cf_ID folder @ '': '' @ dbErr)
      | Inr dbStatus \<Rightarrow> fetchDBStatuses cl (AList.update (cf_ID folder) dbStatus dbStatuses) rest)"

text \<open>The loop over the configured devices that looks for the local device's name and
  breaks at the first device with the local id.\<close>

definition localName :: "ConfigDevice list \<Rightarrow> string \<Rightarrow> string" where
  "localName devices localDeviceID =
     (case find (\<lambda>device. DeviceID device = localDeviceID) devices of
        None \<Rightarrow> localDeviceID
      | Some device \<Rightarrow>
          if TrimSpace (cdev_Name device) \<noteq> [] then cdev_Name device else localDeviceID)"

text \<open>The body of the folder loop after the completion of the folder has been fetched.\<close>

definition folderStatus ::
  "GoLib \<Rightarrow> (string \<times> FolderStats) list \<Rightarrow> ConfigFolder \<Rightarrow> DBStatusResponse \<Rightarrow> DBCompletionResponse \<Rightarrow> FolderStatus" where
  "folderStatus L folderStats folder dbStatus completion =
     (let state = TrimSpace (db_State dbStatus);
          state = (if state = [] then ''unknown'' else state);
          state = (if cf_Paused folder then ''paused'' else state);
          needItems = comp_NeedItems completion;
          needItems = (if needItems <s 0 then 0 else needItems);
          needBytes = comp_NeedBytes completion;
          needBytes = (if needBytes <s 0 then 0 else needBytes);
          globalBytes = db_GlobalBytes dbStatus;
          globalBytes = (if globalBytes <s comp_GlobalBytes completion then comp_GlobalBytes completion
                         else globalBytes);
          completionPct = (if Completion completion \<ge> 0 \<and> Completion completion \<le> 100
                           then Some (Completion completion) else None);
          lastScan = (case map_of folderStats (cf_ID folder) of
                        Some fs \<Rightarrow> parseSyncthingTime L (LastScan fs)
                      | None \<Rightarrow> None);
          label = cf_Label folder;
          label = (if TrimSpace label = [] then cf_ID folder else label)
      in \<lparr>fs_ID = cf_ID folder, fs_Label = label, fs_Path = cf_Path folder, fs_State = state,
          fs_GlobalFiles = db_GlobalFiles dbStatus, fs_LocalFiles = db_LocalFiles dbStatus,
          fs_GlobalBytes = globalBytes, fs_LocalBytes = db_LocalBytes dbStatus,
          fs_NeedItems = needItems, fs_NeedBytes = needBytes,
          fs_LocalChangesItems = db_ReceiveOnlyTotalItems dbStatus,
          fs_CompletionPct = completionPct, fs_LastScanAt = lastScan\<rparr>)"

definition dbStatusOf :: "(string \<times> DBStatusResponse) list \<Rightarrow> string \<Rightarrow> DBStatusResponse" where
  "dbStatusOf dbStatuses folderID =
     (case map_of dbStatuses folderID of Some dbStatus \<Rightarrow> dbStatus | None \<Rightarrow> zeroDBStatusResponse)"

text \<open>The folder loop: it appends one folder status for each configured folder, in the
  order of the configuration, and stops at the first completion that fails.\<close>

fun buildFolders ::
  "GoLib \<Rightarrow> Client \<Rightarrow> (string \<times> FolderStats) list \<Rightarrow> (string \<times> DBStatusResponse) list \<Rightarrow>
   FolderStatus list \<Rightarrow> ConfigFolder list \<Rightarrow> string + FolderStatus list" where
  "buildFolders L cl folderStats dbStatuses folders [] = Inr folders"
| "buildFolders L cl folderStats dbStatuses folders (folder # rest) =
     (case GetDBCompletion cl (cf_ID folder) of
        Inl completionErr \<Rightarrow>
          Inl (''get db completion for folder '' @ cf_ID folder @ '': '' @ completionErr)
      | Inr completion \<Rightarrow>
          buildFolders L cl folderStats dbStatuses
            (folders @ [folderStatus L folderStats folder (dbStatusOf dbStatuses (cf_ID folder)) completion])
            rest)"

text \<open>The remote loop: every configured device but the local one, in the order of the
  configuration.\<close>

definition remoteStatus ::
  "GoLib \<Rightarrow> (string \<times> ConnectionDetails) list \<Rightarrow> (string \<times> DeviceStats) list \<Rightarrow> ConfigDevice \<Rightarrow> RemoteDeviceStatus" where
  "remoteStatus L connections deviceStats deviceCfg =
     (let conn = (case map_of connections (DeviceID deviceCfg) of
                    Some d \<Rightarrow> d | None \<Rightarrow> zeroConnectionDetails);
          deviceStat = (case map_of deviceStats (DeviceID deviceCfg) of
                          Some d \<Rightarrow> d | None \<Rightarrow> zeroDeviceStats);
          name = cdev_Name deviceCfg;
          name = (if TrimSpace name = [] then DeviceID deviceCfg else name)
      in \<lparr>rd_ID = DeviceID deviceCfg, rd_Name = name, rd_Connected = cd_Connected conn,
          rd_Address = cd_Address conn,
          rd_LastSeenAt = parseSyncthingTime L (LastSeen deviceStat),
          rd_InBytesTotal = cd_InBytesTotal conn, rd_OutBytesTotal = cd_OutBytesTotal conn\<rparr>)"

fun buildRemotes ::
  "GoLib \<Rightarrow> (string \<times> ConnectionDetails) list \<Rightarrow> (string \<times> DeviceStats) list \<Rightarrow> string \<Rightarrow>
   RemoteDeviceStatus list \<Rightarrow> ConfigDevice list \<Rightarrow> RemoteDeviceStatus list" where
  "buildRemotes L connections deviceStats localDeviceID remotes [] = remotes"
| "buildRemotes L connections deviceStats localDeviceID remotes (deviceCfg # rest) =
     (if DeviceID deviceCfg = localDeviceID
      then buildRemotes L connections deviceStats localDeviceID remotes rest
      else buildRemotes L connections deviceStats localDeviceID
             (remotes @ [remoteStatus L connections deviceStats deviceCfg]) rest)"

text \<open>The loop over the map \<^verbatim>\<open>dbStatuses\<close> that adds up the local totals.\<close>

fun localTotals :: "int64 \<times> int64 \<times> int64 \<Rightarrow> (string \<times> DBStatusResponse) list \<Rightarrow> int64 \<times> int64 \<times> int64" where
  "localTotals acc [] = acc"
| "localTotals (localFilesTotal, localDirsTotal, localBytesTotal) ((folderID, dbStatus) # rest) =
     localTotals
       (localFilesTotal + db_LocalFiles dbStatus, localDirsTotal + db_LocalDirectories dbStatus,
        localBytesTotal + db_LocalBytes dbStatus)
       rest"

text \<open>\<^verbatim>\<open>collect\<close> returns the snapshot or the error, and the collector as the call
  leaves it: \<^verbatim>\<open>currentRates\<close> runs before the folder loop, so a cycle that fails in
  that loop has already written the counter state.\<close>

definition collect :: "GoLib \<Rightarrow> Collector \<Rightarrow> Client \<Rightarrow> Time \<Rightarrow> (string + DashboardSnapshot) \<times> Collector" where
  "collect L c cl now =
     (case GetSystemStatus cl of Inl err \<Rightarrow> (Inl err, c) | Inr status \<Rightarrow>
      case GetSystemVersion cl of Inl err \<Rightarrow> (Inl err, c) | Inr version \<Rightarrow>
      case GetSystemConnections cl of Inl err \<Rightarrow> (Inl err, c) | Inr connections \<Rightarrow>
      case GetDeviceStats cl of Inl err \<Rightarrow> (Inl err, c) | Inr deviceStats \<Rightarrow>
      case GetFolderStats cl of Inl err \<Rightarrow> (Inl err, c) | Inr folderStats \<Rightarrow>
      case GetConfig cl of Inl err \<Rightarrow> (Inl err, c) | Inr cfg \<Rightarrow>
      case fetchDBStatuses cl [] (cfg_Folders cfg) of Inl err \<Rightarrow> (Inl err, c) | Inr dbStatuses \<Rightarrow>
        let localDeviceID = MyID status;
            localDeviceName = localName (Devices cfg) localDeviceID;
            ((downloadBPS, uploadBPS), c') = currentRates c (Total connections) now
        in
        case buildFolders L cl folderStats dbStatuses [] (cfg_Folders cfg) of
          Inl err \<Rightarrow> (Inl err, c')
        | Inr folders0 \<Rightarrow>
            let folders = sort_Slice_folders L (\<lambda>a b. fs_Label a < fs_Label b) folders0;
                remotes = sort_Slice_remotes L (\<lambda>a b. rd_Name a < rd_Name b)
                            (buildRemotes L (Connections connections) deviceStats localDeviceID []
                               (Devices cfg));
                (localFilesTotal, localDirsTotal, localBytesTotal) = localTotals (0, 0, 0) dbStatuses;
                (listenersOK, listenersTotal) = serviceHealthCount (ConnectionServiceStatus status);
                (discoveryOK, discoveryTotal) = discoveryHealthCount status;
                device =
                  \<lparr>ds_Name = localDeviceName, ds_ID = localDeviceID,
                   ds_Version = TrimSpace (Join [ver_Version version, ver_OS version, ver_Arch version] '' ''),
                   ds_UptimeS = Uptime status, ds_DownloadBPS = downloadBPS,
                   ds_UploadBPS = uploadBPS, ds_LocalFilesTotal = localFilesTotal,
                   ds_LocalDirsTotal = localDirsTotal, ds_LocalBytesTotal = localBytesTotal,
                   ds_ListenersOK = listenersOK, ds_ListenersTotal = listenersTotal,
                   ds_DiscoveryOK = discoveryOK, ds_DiscoveryTotal = discoveryTotal\<rparr>;
                alerts = deriveAlerts remotes folders
            in (Inr \<lparr>GeneratedAt = now, SourceOnline = True, SourceError = None, Device = device,
                     Folders = folders, Remotes = remotes, Alerts = alerts, Stale = False\<rparr>, c'))"

text \<open>\<^verbatim>\<open>refresh\<close>; \<open>now\<close> is the reading of the clock the cycle starts with.\<close>

definition sourceUnreachable :: Alert where
  "sourceUnreachable =
     \<lparr>Severity = ''critical'', Code = ''SOURCE_UNREACHABLE'',
      Message = ''Syncthing API is unreachable'', SubjectID = ''syncthing''\<rparr>"

definition refresh :: "GoLib \<Rightarrow> Collector \<Rightarrow> Client \<Rightarrow> Time \<Rightarrow> Collector" where
  "refresh L c cl now =
     (case collect L c cl now of
        (Inr snapshot0, c') \<Rightarrow>
          let good = snapshot0\<lparr>GeneratedAt := now, SourceOnline := True, SourceError := None,
                               Stale := False\<rparr>
          in c'\<lparr>snapshot := good, lastGood := good, hasSnapshot := True, hasLastGood := True\<rparr>
      | (Inl errText, c') \<Rightarrow>
          let alert = sourceUnreachable in
          if hasLastGood c' then
            let fallback = (lastGood c')\<lparr>SourceOnline := False, SourceError := Some errText,
                                          Stale := True, Alerts := [alert] @ Alerts (lastGood c')\<rparr>
            in c'\<lparr>snapshot := fallback, hasSnapshot := True\<rparr>
          else
            c'\<lparr>snapshot :=
                   \<lparr>GeneratedAt = now, SourceOnline = False, SourceError = Some errText,
                    Device = zeroDeviceStatus, Folders = [], Remotes = [], Alerts = [alert],
                    Stale = True\<rparr>,
               hasSnapshot := True\<rparr>)"

text \<open>The collectors whose last successful refresh ran at \<open>t\<close>: a collector is in
  \<open>goodSince L c t\<close> when it is the result of a refresh that succeeded at \<open>t\<close>, followed
  by any number of refreshes that failed.\<close>

inductive goodSince :: "GoLib \<Rightarrow> Collector \<Rightarrow> Time \<Rightarrow> bool" for L :: GoLib where
  success: "fst (collect L c cl now) = Inr s \<Longrightarrow> goodSince L (refresh L c cl now) now"
| failure: "goodSince L c t \<Longrightarrow> fst (collect L c cl now) = Inl e \<Longrightarrow> goodSince L (refresh L c cl now) t"

subsection \<open>The alerts as the specification words them\<close>

text \<open>The three alerts, and the list the specification describes: the alerts of the
  remotes that are not connected, in the order of the remotes, then for each folder in
  the order of the folders the error alert of a folder in state \<^verbatim>\<open>error\<close>, or else
  the out-of-sync alert of a folder whose need in items or in bytes is not zero.\<close>

definition remoteDisconnected :: "RemoteDeviceStatus \<Rightarrow> Alert" where
  "remoteDisconnected remote =
     \<lparr>Severity = ''critical'', Code = ''REMOTE_DISCONNECTED'',
      Message = ''Remote device '' @ rd_Name remote @ '' is disconnected'',
      SubjectID = rd_ID remote\<rparr>"

definition folderError :: "FolderStatus \<Rightarrow> Alert" where
  "folderError folder =
     \<lparr>Severity = ''critical'', Code = ''FOLDER_ERROR'',
      Message = ''Folder '' @ fs_Label folder @ '' reports error state'',
      SubjectID = fs_ID folder\<rparr>"

definition folderOutOfSync :: "FolderStatus \<Rightarrow> Alert" where
  "folderOutOfSync folder =
     \<lparr>Severity = ''warn'', Code = ''FOLDER_OUT_OF_SYNC'',
      Message = ''Folder '' @ fs_Label folder @ '' has pending sync items'',
      SubjectID = fs_ID folder\<rparr>"

definition specifiedAlerts :: "RemoteDeviceStatus list \<Rightarrow> FolderStatus list \<Rightarrow> Alert list" where
  "specifiedAlerts remotes folders =
     map remoteDisconnected (filter (\<lambda>remote. \<not> rd_Connected remote) remotes) @
     concat (map (\<lambda>folder.
        if fs_State folder = ''error'' then [folderError folder]
        else if fs_NeedItems folder \<noteq> 0 \<or> fs_NeedBytes folder \<noteq> 0 then [folderOutOfSync folder]
        else []) folders)"

subsection \<open>Sample inputs\<close>

text \<open>The responses of the repository's test \<^verbatim>\<open>TestCollectorMapsSnapshotAndAlerts\<close>,
  with a second folder that is paused, counters in place of the instantaneous rates, and
  variations of them: an unreachable source, upstream rates that are not zero, a DB state
  with a leading blank, the configuration in reverse order, and two folders of one label
  in both orders. \<open>testParse\<close> stands for \<^verbatim>\<open>time.Parse\<close> on the two time stamps
  of the samples, which each of the three layouts parses; \<open>testNow\<close> is 20:10:50 UTC
  of the same day.\<close>

definition testParse :: "string \<Rightarrow> string \<Rightarrow> Time option" where
  "testParse layout v =
     (if layout \<in> set formats \<and> v = ''2026-02-05T20:10:00Z'' then Some 63905919000000000000
      else if layout \<in> set formats \<and> v = ''2026-02-05T20:00:00Z'' then Some 63905918400000000000
      else None)"

definition testLib :: GoLib where
  "testLib =
     \<lparr>sort_Slice_folders = insertionSortLessFunc, sort_Slice_remotes = insertionSortLessFunc,
      time_Parse = testParse\<rparr>"

definition testNow :: Time where
  "testNow = 63905919050000000000"

definition testDBStatus :: "string \<Rightarrow> DBStatusResponse" where
  "testDBStatus state =
     \<lparr>db_GlobalFiles = 30, db_LocalFiles = 20, db_LocalDirectories = 7, db_GlobalBytes = 4096,
      db_LocalBytes = 2048, db_NeedFiles = 10, db_NeedDirectories = 0, db_NeedSymlinks = 0,
      db_NeedDeletes = 0, db_NeedBytes = 2048, db_NeedTotalItems = 0,
      db_ReceiveOnlyTotalItems = 3, db_ReceiveOnlyChangedBytes = 0, db_State = state\<rparr>"

definition testConfig :: ConfigResponse where
  "testConfig =
     \<lparr>Devices = [\<lparr>DeviceID = ''LOCAL-1'', cdev_Name = ''vault''\<rparr>,
                 \<lparr>DeviceID = ''REMOTE-1'', cdev_Name = ''BHS-HOST40''\<rparr>],
      cfg_Folders = [\<lparr>cf_ID = ''media'', cf_Label = ''media'', cf_Path = ''/mnt/vault/media'', cf_Paused = True\<rparr>,
                     \<lparr>cf_ID = ''app'', cf_Label = ''app'', cf_Path = ''/mnt/vault/app'', cf_Paused = False\<rparr>]\<rparr>"

definition testClient :: Client where
  "testClient =
     \<lparr>GetSystemStatus = Inr
        \<lparr>MyID = ''LOCAL-1'', Uptime = 120,
         ConnectionServiceStatus =
           [(''tcp://0.0.0.0:22000'', \<lparr>ss_Error = None\<rparr>),
            (''quic://0.0.0.0:22000'', \<lparr>ss_Error = Some ''bind failed''\<rparr>)],
         DiscoveryStatus =
           [(''global'', \<lparr>ss_Error = None\<rparr>), (''local'', \<lparr>ss_Error = Some ''disabled''\<rparr>)],
         DiscoveryMethods = 0, DiscoveryErrors = []\<rparr>,
      GetSystemVersion = Inr \<lparr>ver_Version = ''v2.0.1'', ver_OS = ''linux'', ver_Arch = ''amd64''\<rparr>,
      GetSystemConnections = Inr
        \<lparr>Total = \<lparr>ct_InBytesTotal = 1000, ct_OutBytesTotal = 2000, BitsPerSecondIn = 0,
                  BitsPerSecondOut = 0\<rparr>,
         Connections =
           [(''REMOTE-1'', \<lparr>cd_Address = ''tcp://10.0.0.5:22000'', cd_Connected = False,
                            cd_InBytesTotal = 100, cd_OutBytesTotal = 200\<rparr>)]\<rparr>,
      GetDeviceStats = Inr [(''REMOTE-1'', \<lparr>LastSeen = ''2026-02-05T20:00:00Z''\<rparr>)],
      GetFolderStats = Inr [(''app'', \<lparr>LastScan = ''2026-02-05T20:10:00Z''\<rparr>)],
      GetConfig = Inr testConfig,
      GetDBStatus = (\<lambda>folderID. Inr (testDBStatus ''syncing'')),
      GetDBCompletion = (\<lambda>folderID. Inr
        \<lparr>Completion = 8.1, comp_NeedBytes = 3072, comp_NeedItems = 12, comp_GlobalBytes = 4096\<rparr>)\<rparr>"

definition downClient :: Client where
  "downClient = testClient\<lparr>GetSystemStatus := Inl ''connection refused''\<rparr>"

definition testApp :: FolderStatus where
  "testApp =
     \<lparr>fs_ID = ''app'', fs_Label = ''app'', fs_Path = ''/mnt/vault/app'', fs_State = ''syncing'',
      fs_GlobalFiles = 30, fs_LocalFiles = 20, fs_GlobalBytes = 4096, fs_LocalBytes = 2048,
      fs_NeedItems = 12, fs_NeedBytes = 3072, fs_LocalChangesItems = 3,
      fs_CompletionPct = Some 8.1, fs_LastScanAt = Some 63905919000000000000\<rparr>"

definition testMedia :: FolderStatus where
  "testMedia =
     \<lparr>fs_ID = ''media'', fs_Label = ''media'', fs_Path = ''/mnt/vault/media'', fs_State = ''paused'',
      fs_GlobalFiles = 30, fs_LocalFiles = 20, fs_GlobalBytes = 4096, fs_LocalBytes = 2048,
      fs_NeedItems = 12, fs_NeedBytes = 3072, fs_LocalChangesItems = 3,
      fs_CompletionPct = Some 8.1, fs_LastScanAt = None\<rparr>"

definition testRemote :: RemoteDeviceStatus where
  "testRemote =
     \<lparr>rd_ID = ''REMOTE-1'', rd_Name = ''BHS-HOST40'', rd_Connected = False,
      rd_Address = ''tcp://10.0.0.5:22000'', rd_LastSeenAt = Some 63905918400000000000, rd_InBytesTotal = 100,
      rd_OutBytesTotal = 200\<rparr>"

definition testSnapshot :: DashboardSnapshot where
  "testSnapshot =
     \<lparr>GeneratedAt = testNow, SourceOnline = True, SourceError = None,
      Device =
        \<lparr>ds_Name = ''vault'', ds_ID = ''LOCAL-1'', ds_Version = ''v2.0.1 linux amd64'',
         ds_UptimeS = 120, ds_DownloadBPS = 0, ds_UploadBPS = 0, ds_LocalFilesTotal = 40,
         ds_LocalDirsTotal = 14, ds_LocalBytesTotal = 4096, ds_ListenersOK = 1,
         ds_ListenersTotal = 2, ds_DiscoveryOK = 1, ds_DiscoveryTotal = 2\<rparr>,
      Folders = [testApp, testMedia], Remotes = [testRemote],
      Alerts =
        [\<lparr>Severity = ''critical'', Code = ''REMOTE_DISCONNECTED'',
          Message = ''Remote device BHS-HOST40 is disconnected'', SubjectID = ''REMOTE-1''\<rparr>,
         \<lparr>Severity = ''warn'', Code = ''FOLDER_OUT_OF_SYNC'',
          Message = ''Folder app has pending sync items'', SubjectID = ''app''\<rparr>,
         \<lparr>Severity = ''warn'', Code = ''FOLDER_OUT_OF_SYNC'',
          Message = ''Folder media has pending sync items'', SubjectID = ''media''\<rparr>],
      Stale = False\<rparr>"

definition healthyCollector :: Collector where
  "healthyCollector = refresh testLib (New 5000000000) testClient testNow"



definition paddedClient :: Client where
  "paddedClient = testClient\<lparr>GetDBStatus := (\<lambda>folderID. Inr (testDBStatus '' syncing''))\<rparr>"

definition swappedConfig :: ConfigResponse where
  "swappedConfig =
     \<lparr>Devices = rev (Devices testConfig), cfg_Folders = rev (cfg_Folders testConfig)\<rparr>"

definition twinA :: ConfigFolder where
  "twinA = \<lparr>cf_ID = ''a'', cf_Label = ''shared'', cf_Path = ''/srv/a'', cf_Paused = False\<rparr>"

definition twinB :: ConfigFolder where
  "twinB = \<lparr>cf_ID = ''b'', cf_Label = ''shared'', cf_Path = ''/srv/b'', cf_Paused = False\<rparr>"

definition twinClient :: "ConfigFolder list \<Rightarrow> Client" where
  "twinClient folders =
     testClient\<lparr>GetConfig := Inr \<lparr>Devices = Devices testConfig, cfg_Folders = folders\<rparr>\<rparr>"

definition sampledCollector :: Collector where
  "sampledCollector =
     (New 5000000000)\<lparr>lastRateAt := testNow, lastInTotal := 1000, lastOutTotal := 2000\<rparr>"

definition laterTotals :: "real \<Rightarrow> ConnectionTotals" where
  "laterTotals bitsIn =
     \<lparr>ct_InBytesTotal = 1600, ct_OutBytesTotal = 2600, BitsPerSecondIn = bitsIn,
      BitsPerSecondOut = 0\<rparr>"

section \<open>Properties\<close>

subsection \<open>Time and counters\<close>

lemma sint_Sub: "sint (Sub t u) = max (- (2 ^ 63)) (min (2 ^ 63 - 1) (t - u))"
proof -
  let ?k = "max (- (2 ^ 63)) (min (2 ^ 63 - 1) (t - u)) :: int"
  have "- (2 ^ 63) \<le> ?k" and "?k < 2 ^ 63"
    by simp_all
  then have "signed_take_bit 63 ?k = ?k"
    by (simp add: signed_take_bit_int_eq_self)
  then show ?thesis
    by (simp add: Sub_def sint_sbintrunc')
qed

lemma Seconds_Sub_nonpos: "Seconds (Sub now u) \<le> 0 \<longleftrightarrow> now \<le> u"
  by (auto simp: Seconds_def sint_Sub divide_le_0_iff min_def max_def)

lemma Seconds_Sub_exact:
  "u < now \<Longrightarrow> now - u < 2 ^ 63 \<Longrightarrow> Seconds (Sub now u) = real_of_int (now - u) / 1000000000"
  by (simp add: Seconds_def sint_Sub)

lemma float64_diff:
  "sint b \<le> sint a \<Longrightarrow> sint a - sint b < 2 ^ 63 \<Longrightarrow> float64 (a - b) = real_of_int (sint a - sint b)"
proof -
  assume a: "sint b \<le> sint a" "sint a - sint b < 2 ^ 63"
  have "sint (a - b) = signed_take_bit 63 (sint a - sint b)"
    by (simp add: sint_word_ariths)
  also have "\<dots> = sint a - sint b"
    using a by (simp add: signed_take_bit_int_eq_self)
  finally show ?thesis by (simp add: float64_def)
qed

lemma currentRates_rates:
  "fst (currentRates c totals now) =
     (if 0 < BitsPerSecondIn totals \<or> 0 < BitsPerSecondOut totals
        \<or> lastRateAt c = 0 \<or> now \<le> lastRateAt c
        \<or> ct_InBytesTotal totals - lastInTotal c <s 0 \<or> ct_OutBytesTotal totals - lastOutTotal c <s 0
      then (BitsPerSecondIn totals / 8, BitsPerSecondOut totals / 8)
      else (float64 (ct_InBytesTotal totals - lastInTotal c) / Seconds (Sub now (lastRateAt c)),
            float64 (ct_OutBytesTotal totals - lastOutTotal c) / Seconds (Sub now (lastRateAt c))))"
  by (simp add: currentRates_def IsZero_def Seconds_Sub_nonpos Let_def)

lemma currentRates_state:
  "snd (currentRates c totals now) =
     (if 0 < BitsPerSecondIn totals \<or> 0 < BitsPerSecondOut totals
        \<or> (lastRateAt c \<noteq> 0 \<and> now \<le> lastRateAt c)
      then c
      else c\<lparr>lastRateAt := now, lastInTotal := ct_InBytesTotal totals,
             lastOutTotal := ct_OutBytesTotal totals\<rparr>)"
  by (simp add: currentRates_def IsZero_def Seconds_Sub_nonpos Let_def)

subsection \<open>What a collection leaves of the collector\<close>

lemma currentRates_frame:
  "\<exists>a b d. snd (currentRates c totals now) = c\<lparr>lastRateAt := a, lastInTotal := b, lastOutTotal := d\<rparr>"
proof (cases "0 < BitsPerSecondIn totals \<or> 0 < BitsPerSecondOut totals
        \<or> (lastRateAt c \<noteq> 0 \<and> now \<le> lastRateAt c)")
  case True
  then have "snd (currentRates c totals now) = c\<lparr>lastRateAt := lastRateAt c, lastInTotal := lastInTotal c, lastOutTotal := lastOutTotal c\<rparr>"
    by (simp add: currentRates_state)
  then show ?thesis by blast
next
  case False
  then have "snd (currentRates c totals now) = c\<lparr>lastRateAt := now, lastInTotal := ct_InBytesTotal totals,
             lastOutTotal := ct_OutBytesTotal totals\<rparr>"
    by (auto simp: currentRates_state)
  then show ?thesis by blast
qed

lemma collect_state:
  "snd (collect L c cl now) = c \<or>
   (\<exists>connections. GetSystemConnections cl = Inr connections \<and>
      snd (collect L c cl now) = snd (currentRates c (Total connections) now))"
  by (auto simp: collect_def Let_def split: sum.splits prod.splits)

lemma collect_frame:
  "\<exists>a b d. snd (collect L c cl now) = c\<lparr>lastRateAt := a, lastInTotal := b, lastOutTotal := d\<rparr>"
proof -
  have "c = c\<lparr>lastRateAt := lastRateAt c, lastInTotal := lastInTotal c, lastOutTotal := lastOutTotal c\<rparr>"
    by simp
  then show ?thesis
    using collect_state [of L c cl now] currentRates_frame by metis
qed

lemma collect_ok_shape:
  assumes "fst (collect L c cl now) = Inr s"
  shows "GeneratedAt s = now \<and> SourceOnline s \<and> SourceError s = None \<and> \<not> Stale s \<and>
         Alerts s = deriveAlerts (Remotes s) (Folders s)"
  using assms by (auto simp: collect_def Let_def split: sum.splits prod.splits)

subsection \<open>The three outcomes of a refresh\<close>

lemma refresh_ok:
  assumes "fst (collect L c cl now) = Inr s"
  shows "\<exists>a b d. refresh L c cl now =
           c\<lparr>lastRateAt := a, lastInTotal := b, lastOutTotal := d,
             snapshot := s\<lparr>GeneratedAt := now, SourceOnline := True, SourceError := None, Stale := False\<rparr>,
             lastGood := s\<lparr>GeneratedAt := now, SourceOnline := True, SourceError := None, Stale := False\<rparr>,
             hasSnapshot := True, hasLastGood := True\<rparr>"
proof -
  obtain a b d where "snd (collect L c cl now) = c\<lparr>lastRateAt := a, lastInTotal := b, lastOutTotal := d\<rparr>"
    using collect_frame by blast
  with assms have "collect L c cl now = (Inr s, c\<lparr>lastRateAt := a, lastInTotal := b, lastOutTotal := d\<rparr>)"
    by (metis prod.collapse)
  then have "refresh L c cl now =
           c\<lparr>lastRateAt := a, lastInTotal := b, lastOutTotal := d,
             snapshot := s\<lparr>GeneratedAt := now, SourceOnline := True, SourceError := None, Stale := False\<rparr>,
             lastGood := s\<lparr>GeneratedAt := now, SourceOnline := True, SourceError := None, Stale := False\<rparr>,
             hasSnapshot := True, hasLastGood := True\<rparr>"
    by (simp add: refresh_def Let_def)
  then show ?thesis by blast
qed

lemma refresh_fallback:
  assumes "fst (collect L c cl now) = Inl e" and "hasLastGood c"
  shows "\<exists>a b d. refresh L c cl now =
           c\<lparr>lastRateAt := a, lastInTotal := b, lastOutTotal := d,
             snapshot := (lastGood c)\<lparr>SourceOnline := False, SourceError := Some e, Stale := True,
                                        Alerts := sourceUnreachable # Alerts (lastGood c)\<rparr>,
             hasSnapshot := True\<rparr>"
proof -
  obtain a b d where "snd (collect L c cl now) = c\<lparr>lastRateAt := a, lastInTotal := b, lastOutTotal := d\<rparr>"
    using collect_frame by blast
  with assms have "collect L c cl now = (Inl e, c\<lparr>lastRateAt := a, lastInTotal := b, lastOutTotal := d\<rparr>)"
    by (metis prod.collapse)
  then have "refresh L c cl now =
           c\<lparr>lastRateAt := a, lastInTotal := b, lastOutTotal := d,
             snapshot := (lastGood c)\<lparr>SourceOnline := False, SourceError := Some e, Stale := True,
                                        Alerts := sourceUnreachable # Alerts (lastGood c)\<rparr>,
             hasSnapshot := True\<rparr>"
    using assms(2) by (simp add: refresh_def Let_def)
  then show ?thesis by blast
qed

lemma refresh_cold:
  assumes "fst (collect L c cl now) = Inl e" and "\<not> hasLastGood c"
  shows "\<exists>a b d. refresh L c cl now =
           c\<lparr>lastRateAt := a, lastInTotal := b, lastOutTotal := d,
             snapshot := \<lparr>GeneratedAt = now, SourceOnline = False, SourceError = Some e,
                    Device = zeroDeviceStatus, Folders = [], Remotes = [], Alerts = [sourceUnreachable],
                    Stale = True\<rparr>,
             hasSnapshot := True\<rparr>"
proof -
  obtain a b d where "snd (collect L c cl now) = c\<lparr>lastRateAt := a, lastInTotal := b, lastOutTotal := d\<rparr>"
    using collect_frame by blast
  with assms have "collect L c cl now = (Inl e, c\<lparr>lastRateAt := a, lastInTotal := b, lastOutTotal := d\<rparr>)"
    by (metis prod.collapse)
  then have "refresh L c cl now =
           c\<lparr>lastRateAt := a, lastInTotal := b, lastOutTotal := d,
             snapshot := \<lparr>GeneratedAt = now, SourceOnline = False, SourceError = Some e,
                    Device = zeroDeviceStatus, Folders = [], Remotes = [], Alerts = [sourceUnreachable],
                    Stale = True\<rparr>,
             hasSnapshot := True\<rparr>"
    using assms(2) by (simp add: refresh_def Let_def)
  then show ?thesis by blast
qed

subsection \<open>Derived alerts\<close>

lemma remoteAlerts_append: "remoteAlerts acc rs = acc @ remoteAlerts [] rs"
proof (induction rs arbitrary: acc)
  case Nil then show ?case by simp
next
  case (Cons r rs)
  show ?case
    using Cons.IH [of acc] Cons.IH [of "acc @ [x]" for x] Cons.IH [of "[x]" for x]
    by simp
qed

lemma folderAlerts_append: "folderAlerts acc fs = acc @ folderAlerts [] fs"
proof (induction fs arbitrary: acc)
  case Nil then show ?case by simp
next
  case (Cons f fs)
  show ?case
    using Cons.IH [of acc] Cons.IH [of "acc @ [x]" for x] Cons.IH [of "[x]" for x]
    by simp
qed

lemma remoteAlerts_codes: "a \<in> set (remoteAlerts [] rs) \<Longrightarrow> Code a = ''REMOTE_DISCONNECTED''"
proof (induction rs)
  case Nil then show ?case by simp
next
  case (Cons r rs)
  then show ?case
    using remoteAlerts_append [of "[x]" rs for x]
    by (auto split: if_splits)
qed

lemma folderAlerts_codes:
  "a \<in> set (folderAlerts [] fs) \<Longrightarrow> Code a = ''FOLDER_ERROR'' \<or> Code a = ''FOLDER_OUT_OF_SYNC''"
proof (induction fs)
  case Nil then show ?case by simp
next
  case (Cons f fs)
  then show ?case
    using folderAlerts_append [of "[x]" fs for x]
    by (auto split: if_splits)
qed

lemma deriveAlerts_no_source_alert:
  "a \<in> set (deriveAlerts rs fs) \<Longrightarrow> Code a \<noteq> ''SOURCE_UNREACHABLE''"
proof -
  assume "a \<in> set (deriveAlerts rs fs)"
  then have "a \<in> set (remoteAlerts [] rs) \<or> a \<in> set (folderAlerts [] fs)"
    using folderAlerts_append [of "remoteAlerts [] rs" fs] by (auto simp: deriveAlerts_def)
  then show ?thesis
    using remoteAlerts_codes folderAlerts_codes by fastforce
qed

lemma goodSince_lastGood:
  "goodSince L c t \<Longrightarrow>
     hasLastGood c \<and> hasSnapshot c \<and> GeneratedAt (lastGood c) = t \<and> SourceOnline (lastGood c) \<and>
     Alerts (lastGood c) = deriveAlerts (Remotes (lastGood c)) (Folders (lastGood c))"
proof (induction rule: goodSince.induct)
  case (success c cl now s)
  obtain a b d where "refresh L c cl now =
           c\<lparr>lastRateAt := a, lastInTotal := b, lastOutTotal := d,
             snapshot := s\<lparr>GeneratedAt := now, SourceOnline := True, SourceError := None, Stale := False\<rparr>,
             lastGood := s\<lparr>GeneratedAt := now, SourceOnline := True, SourceError := None, Stale := False\<rparr>,
             hasSnapshot := True, hasLastGood := True\<rparr>"
    using refresh_ok [OF success] by blast
  then show ?case
    using collect_ok_shape [OF success] by simp
next
  case (failure c t cl now e)
  then have h: "hasLastGood c" by simp
  obtain a b d where "refresh L c cl now =
           c\<lparr>lastRateAt := a, lastInTotal := b, lastOutTotal := d,
             snapshot := (lastGood c)\<lparr>SourceOnline := False, SourceError := Some e, Stale := True,
                                        Alerts := sourceUnreachable # Alerts (lastGood c)\<rparr>,
             hasSnapshot := True\<rparr>"
    using refresh_fallback [OF failure(2) h] by blast
  then show ?case
    using failure.IH by simp
qed

subsection \<open>Reading a snapshot\<close>

lemma Snapshot_offline:
  assumes "hasSnapshot c" and "\<not> SourceOnline (snapshot c)"
  shows "Snapshot c clock = ((snapshot c)\<lparr>Stale := True\<rparr>, True)"
  using assms by (simp add: Snapshot_def Let_def)

lemma doubled_interval:
  fixes p :: Duration
  assumes "0 < sint p" and "sint p < 2 ^ 62"
  shows "sint (2 * p) = 2 * sint p"
proof -
  have "sint (2 * p) = signed_take_bit 63 (2 * sint p)"
    by (simp add: sint_word_ariths)
  also have "\<dots> = 2 * sint p"
    using assms by (simp add: signed_take_bit_int_eq_self)
  finally show ?thesis .
qed

lemma age_exceeds:
  fixes p :: Duration
  assumes "0 < sint p" and "sint p < 2 ^ 62"
  shows "2 * p <s Sub clock g \<longleftrightarrow> 2 * sint p < clock - g"
  using assms by (auto simp: word_sless_alt doubled_interval sint_Sub)

subsection \<open>The shape of a successful collection\<close>

lemma fetch_keeps:
  "fetchDBStatuses cl m fs = Inr m' \<Longrightarrow> map_of m k = Some v \<Longrightarrow> GetDBStatus cl k = Inr v \<Longrightarrow>
   map_of m' k = Some v"
proof (induction fs arbitrary: m)
  case Nil
  then show ?case by simp
next
  case (Cons folder rest)
  from Cons.prems(1) obtain db where db: "GetDBStatus cl (cf_ID folder) = Inr db"
    and rest: "fetchDBStatuses cl (AList.update (cf_ID folder) db m) rest = Inr m'"
    by (auto split: sum.splits)
  have "map_of (AList.update (cf_ID folder) db m) k = Some v"
    using Cons.prems(2,3) db by (auto simp: update_conv')
  then show ?case
    using Cons.IH [OF rest _ Cons.prems(3)] by simp
qed

lemma fetch_lookup:
  "fetchDBStatuses cl m fs = Inr m' \<Longrightarrow> folder \<in> set fs \<Longrightarrow>
   \<exists>db. GetDBStatus cl (cf_ID folder) = Inr db \<and> map_of m' (cf_ID folder) = Some db"
proof (induction fs arbitrary: m)
  case Nil
  then show ?case by simp
next
  case (Cons x rest)
  from Cons.prems(1) obtain db where db: "GetDBStatus cl (cf_ID x) = Inr db"
    and rest: "fetchDBStatuses cl (AList.update (cf_ID x) db m) rest = Inr m'"
    by (auto split: sum.splits)
  show ?case
  proof (cases "folder = x")
    case True
    have "map_of (AList.update (cf_ID x) db m) (cf_ID x) = Some db"
      by (simp add: update_conv')
    then have "map_of m' (cf_ID x) = Some db"
      using fetch_keeps [OF rest _ db] by simp
    with db True show ?thesis by simp
  next
    case False
    with Cons.prems(2) have "folder \<in> set rest" by simp
    then show ?thesis using Cons.IH [OF rest] by simp
  qed
qed

lemma buildFolders_shape:
  "buildFolders L cl folderStats dbs acc fs = Inr out \<Longrightarrow>
   out = acc @ map (\<lambda>folder. folderStatus L folderStats folder (dbStatusOf dbs (cf_ID folder))
                      (projr (GetDBCompletion cl (cf_ID folder)))) fs \<and>
   (\<forall>folder \<in> set fs. \<exists>completion. GetDBCompletion cl (cf_ID folder) = Inr completion)"
proof (induction fs arbitrary: acc)
  case Nil
  then show ?case by simp
next
  case (Cons x rest)
  from Cons.prems obtain completion where comp: "GetDBCompletion cl (cf_ID x) = Inr completion"
    and rest: "buildFolders L cl folderStats dbs
        (acc @ [folderStatus L folderStats x (dbStatusOf dbs (cf_ID x)) completion]) rest = Inr out"
    by (auto split: sum.splits)
  show ?case
    using Cons.IH [OF rest] comp by simp
qed

lemma buildRemotes_shape:
  "buildRemotes L connections deviceStats localDeviceID acc devices =
     acc @ map (remoteStatus L connections deviceStats)
             (filter (\<lambda>deviceCfg. DeviceID deviceCfg \<noteq> localDeviceID) devices)"
  by (induction devices arbitrary: acc) simp_all

lemma collect_ok_parts:
  assumes "fst (collect L c cl now) = Inr s"
  shows "\<exists>status connections deviceStats folderStats cfg dbs.
           GetSystemStatus cl = Inr status \<and> GetSystemConnections cl = Inr connections \<and>
           GetDeviceStats cl = Inr deviceStats \<and> GetFolderStats cl = Inr folderStats \<and>
           GetConfig cl = Inr cfg \<and>
           fetchDBStatuses cl [] (cfg_Folders cfg) = Inr dbs \<and>
           (\<forall>folder \<in> set (cfg_Folders cfg). \<exists>completion. GetDBCompletion cl (cf_ID folder) = Inr completion) \<and>
           Folders s = sort_Slice_folders L (\<lambda>a b. fs_Label a < fs_Label b)
             (map (\<lambda>folder. folderStatus L folderStats folder (dbStatusOf dbs (cf_ID folder))
                      (projr (GetDBCompletion cl (cf_ID folder)))) (cfg_Folders cfg)) \<and>
           Remotes s = sort_Slice_remotes L (\<lambda>a b. rd_Name a < rd_Name b)
             (map (remoteStatus L (Connections connections) deviceStats)
               (filter (\<lambda>deviceCfg. DeviceID deviceCfg \<noteq> MyID status) (Devices cfg)))"
proof -
  from assms obtain status where status: "GetSystemStatus cl = Inr status"
    by (cases "GetSystemStatus cl") (simp_all add: collect_def)
  from assms status obtain version where version: "GetSystemVersion cl = Inr version"
    by (cases "GetSystemVersion cl") (simp_all add: collect_def)
  from assms status version obtain connections where conns: "GetSystemConnections cl = Inr connections"
    by (cases "GetSystemConnections cl") (simp_all add: collect_def)
  from assms status version conns obtain deviceStats where ds: "GetDeviceStats cl = Inr deviceStats"
    by (cases "GetDeviceStats cl") (simp_all add: collect_def)
  from assms status version conns ds obtain folderStats where fst: "GetFolderStats cl = Inr folderStats"
    by (cases "GetFolderStats cl") (simp_all add: collect_def)
  from assms status version conns ds fst obtain cfg where cfg: "GetConfig cl = Inr cfg"
    by (cases "GetConfig cl") (simp_all add: collect_def)
  from assms status version conns ds fst cfg obtain dbs
    where dbs: "fetchDBStatuses cl [] (cfg_Folders cfg) = Inr dbs"
    by (cases "fetchDBStatuses cl [] (cfg_Folders cfg)") (simp_all add: collect_def)
  from assms status version conns ds fst cfg dbs obtain folders0
    where f0: "buildFolders L cl folderStats dbs [] (cfg_Folders cfg) = Inr folders0"
    by (cases "buildFolders L cl folderStats dbs [] (cfg_Folders cfg)")
       (simp_all add: collect_def Let_def split: prod.splits)
  have sf: "Folders s = sort_Slice_folders L (\<lambda>a b. fs_Label a < fs_Label b) folders0"
    and sr: "Remotes s = sort_Slice_remotes L (\<lambda>a b. rd_Name a < rd_Name b)
               (buildRemotes L (Connections connections) deviceStats (MyID status) [] (Devices cfg))"
    using assms status version conns ds fst cfg dbs f0
    by (auto simp: collect_def Let_def split: prod.splits)
  show ?thesis
    using status conns ds fst cfg dbs buildFolders_shape [OF f0] sf sr
    by (simp add: buildRemotes_shape)
qed

lemma folder_origin:
  assumes perm: "sortContract (sort_Slice_folders L) (\<lambda>a b. fs_Label a < fs_Label b)"
    and ok: "fst (collect L c cl now) = Inr s"
    and f: "f \<in> set (Folders s)"
  shows "\<exists>cfg folderStats folder dbStatus completion.
           GetConfig cl = Inr cfg \<and> GetFolderStats cl = Inr folderStats \<and>
           folder \<in> set (cfg_Folders cfg) \<and>
           GetDBStatus cl (cf_ID folder) = Inr dbStatus \<and>
           GetDBCompletion cl (cf_ID folder) = Inr completion \<and>
           f = folderStatus L folderStats folder dbStatus completion"
proof -
  obtain folderStats cfg dbs where
    fst: "GetFolderStats cl = Inr folderStats" and cfg: "GetConfig cl = Inr cfg"
    and dbs: "fetchDBStatuses cl [] (cfg_Folders cfg) = Inr dbs"
    and comps: "\<forall>folder \<in> set (cfg_Folders cfg). \<exists>completion. GetDBCompletion cl (cf_ID folder) = Inr completion"
    and sf: "Folders s = sort_Slice_folders L (\<lambda>a b. fs_Label a < fs_Label b)
             (map (\<lambda>folder. folderStatus L folderStats folder (dbStatusOf dbs (cf_ID folder))
                      (projr (GetDBCompletion cl (cf_ID folder)))) (cfg_Folders cfg))"
    using collect_ok_parts [OF ok] by blast
  let ?g = "\<lambda>folder. folderStatus L folderStats folder (dbStatusOf dbs (cf_ID folder))
                      (projr (GetDBCompletion cl (cf_ID folder)))"
  have "mset (Folders s) = mset (map ?g (cfg_Folders cfg))"
    using perm by (simp add: sf sortContract_def)
  then have "set (Folders s) = set (map ?g (cfg_Folders cfg))"
    by (rule mset_eq_setD)
  with f obtain folder where folder: "folder \<in> set (cfg_Folders cfg)" and fg: "f = ?g folder"
    by auto
  obtain db where db: "GetDBStatus cl (cf_ID folder) = Inr db" and m: "map_of dbs (cf_ID folder) = Some db"
    using fetch_lookup [OF dbs folder] by blast
  obtain completion where comp: "GetDBCompletion cl (cf_ID folder) = Inr completion"
    using comps folder by blast
  have "f = folderStatus L folderStats folder db completion"
    using fg m comp by (simp add: dbStatusOf_def)
  with cfg fst folder db comp show ?thesis by blast
qed

subsection \<open>Sorting\<close>

lemma singleton_filter:
  assumes "distinct (map f xs)" and "k \<in> set xs"
  shows "filter_mset (\<lambda>x. f k = f x) (mset xs) = {#k#}"
  using assms
proof (induction xs)
  case Nil
  then show ?case by simp
next
  case (Cons x xs)
  show ?case
  proof (cases "k = x")
    case True
    then have "\<forall>y \<in> set xs. f k \<noteq> f y"
      using Cons.prems(1) by auto
    then have "filter_mset (\<lambda>x. f k = f x) (mset xs) = {#}"
      by auto
    with True show ?thesis by simp
  next
    case False
    have kx: "k \<in> set xs"
      using False Cons.prems(2) by simp
    have "f x \<notin> f ` set xs"
      using Cons.prems(1) by simp
    with kx have "f k \<noteq> f x"
      by (metis imageI)
    with kx Cons show ?thesis by simp
  qed
qed

lemma sorted_by_distinct_key_unique:
  fixes f :: "'a \<Rightarrow> 'k::linorder"
  assumes m: "mset xs = mset ys" and sx: "sorted (map f xs)" and sy: "sorted (map f ys)"
    and d: "distinct (map f xs)"
  shows "xs = ys"
proof -
  have dy: "distinct (map f ys)"
  proof -
    have "mset (map f ys) = mset (map f xs)" using m by simp
    then show ?thesis using d by (metis mset_eq_imp_distinct_iff)
  qed
  have eq: "filter (\<lambda>x. f k = f x) ys = filter (\<lambda>x. f k = f x) xs" if "k \<in> set ys" for k
  proof -
    have kx: "k \<in> set xs" using that m by (metis mset_eq_setD)
    have "mset (filter (\<lambda>x. f k = f x) ys) = {#k#}"
      using singleton_filter [OF dy that] by simp
    then have "filter (\<lambda>x. f k = f x) ys = [k]"
      by (simp only: mset_single_iff)
    moreover have "mset (filter (\<lambda>x. f k = f x) xs) = {#k#}"
      using singleton_filter [OF d kx] by simp
    then have "filter (\<lambda>x. f k = f x) xs = [k]"
      by (simp only: mset_single_iff)
    ultimately show ?thesis by simp
  qed
  have "sort_key f xs = ys"
    using m eq sy by (intro properties_for_sort_key) simp_all
  moreover have "sort_key f xs = xs"
    using sx by (intro properties_for_sort_key) simp_all
  ultimately show ?thesis by simp
qed

lemma mset_sinkLeft: "mset (sinkLeft lt x ys) = add_mset x (mset ys)"
  by (induction ys) simp_all

lemma mset_insertion_fold: "mset (foldl (\<lambda>acc x. sinkLeft lt x acc) acc xs) = mset acc + mset xs"
  by (induction xs arbitrary: acc) (simp_all add: mset_sinkLeft)

lemma sinkLeft_descending:
  fixes key :: "'a \<Rightarrow> 'k::linorder"
  assumes "sorted_wrt (\<lambda>a b. key b \<le> key a) ys"
  shows "sorted_wrt (\<lambda>a b. key b \<le> key a) (sinkLeft (\<lambda>a b. key a < key b) x ys)"
  using assms
proof (induction ys)
  case Nil
  then show ?case by simp
next
  case (Cons y ys)
  have "set (sinkLeft (\<lambda>a b. key a < key b) x ys) = insert x (set ys)"
    using mset_sinkLeft [of "\<lambda>a b. key a < key b" x ys] by (metis mset_eq_setD set_mset_add_mset_insert set_mset_mset)
  with Cons show ?case by (auto simp: less_imp_le)
qed

lemma insertion_fold_descending:
  fixes key :: "'a \<Rightarrow> 'k::linorder"
  assumes "sorted_wrt (\<lambda>a b. key b \<le> key a) acc"
  shows "sorted_wrt (\<lambda>a b. key b \<le> key a) (foldl (\<lambda>acc x. sinkLeft (\<lambda>a b. key a < key b) x acc) acc xs)"
  using assms by (induction xs arbitrary: acc) (simp_all add: sinkLeft_descending)

lemma insertionSort_contract:
  fixes key :: "'a \<Rightarrow> 'k::linorder"
  shows "sortContract insertionSortLessFunc (\<lambda>a b. key a < key b)"
proof -
  have "sorted_wrt (\<lambda>a b. \<not> key b < key a) (insertionSortLessFunc (\<lambda>a b. key a < key b) xs)" for xs
    using insertion_fold_descending [of key "[]" xs]
    by (simp add: insertionSortLessFunc_def sorted_wrt_rev not_less)
  then show ?thesis
    by (simp add: sortContract_def insertionSortLessFunc_def mset_insertion_fold)
qed

lemma contract_sorted:
  fixes key :: "'a \<Rightarrow> 'k::linorder"
  assumes "sortContract srt (\<lambda>a b. key a < key b)"
  shows "sorted (map key (srt (\<lambda>a b. key a < key b) xs)) \<and> mset (srt (\<lambda>a b. key a < key b) xs) = mset xs"
  using assms by (simp add: sortContract_def sorted_map not_less)

subsection \<open>The alerts and the folder refinements\<close>

lemma remoteAlerts_map:
  "remoteAlerts [] rs = map remoteDisconnected (filter (\<lambda>remote. \<not> rd_Connected remote) rs)"
proof (induction rs)
  case Nil
  then show ?case by simp
next
  case (Cons r rs)
  then show ?case
    using remoteAlerts_append [of "[remoteDisconnected r]" rs]
    by (simp add: remoteDisconnected_def)
qed

lemma positive_iff_nonzero:
  fixes x :: int64
  assumes "0 \<le> sint x"
  shows "0 <s x \<longleftrightarrow> x \<noteq> 0"
proof -
  have "sint x = 0 \<longleftrightarrow> x = 0"
    by (simp add: signed_eq_0_iff)
  with assms show ?thesis
    by (auto simp: word_sless_alt)
qed

lemma folderAlerts_concat:
  assumes "\<forall>f \<in> set fs. 0 \<le> sint (fs_NeedItems f) \<and> 0 \<le> sint (fs_NeedBytes f)"
  shows "folderAlerts [] fs =
     concat (map (\<lambda>folder.
        if fs_State folder = ''error'' then [folderError folder]
        else if fs_NeedItems folder \<noteq> 0 \<or> fs_NeedBytes folder \<noteq> 0 then [folderOutOfSync folder]
        else []) fs)"
  using assms
proof (induction fs)
  case Nil
  then show ?case by simp
next
  case (Cons f fs)
  have p: "0 <s fs_NeedItems f \<longleftrightarrow> fs_NeedItems f \<noteq> 0" "0 <s fs_NeedBytes f \<longleftrightarrow> fs_NeedBytes f \<noteq> 0"
    using Cons.prems by (simp_all add: positive_iff_nonzero)
  have ih: "folderAlerts [] fs =
     concat (map (\<lambda>folder.
        if fs_State folder = ''error'' then [folderError folder]
        else if fs_NeedItems folder \<noteq> 0 \<or> fs_NeedBytes folder \<noteq> 0 then [folderOutOfSync folder]
        else []) fs)"
    using Cons by simp
  show ?case
    using folderAlerts_append [of "[folderError f]" fs] folderAlerts_append [of "[folderOutOfSync f]" fs]
    by (simp add: p ih folderError_def folderOutOfSync_def)
qed

lemma folderStatus_need:
  "sint (fs_NeedItems (folderStatus L folderStats folder dbStatus completion)) = max 0 (sint (comp_NeedItems completion)) \<and>
   sint (fs_NeedBytes (folderStatus L folderStats folder dbStatus completion)) = max 0 (sint (comp_NeedBytes completion))"
  by (simp add: folderStatus_def Let_def word_sless_alt max_def)

lemma folderStatus_global:
  "sint (fs_GlobalBytes (folderStatus L folderStats folder dbStatus completion)) =
     max (sint (db_GlobalBytes dbStatus)) (sint (comp_GlobalBytes completion))"
  by (simp add: folderStatus_def Let_def word_sless_alt max_def)

subsection \<open>The sample inputs\<close>

lemma testLib_contracts:
  "sortContract (sort_Slice_folders testLib) (\<lambda>a b. fs_Label a < fs_Label b)"
  "sortContract (sort_Slice_remotes testLib) (\<lambda>a b. rd_Name a < rd_Name b)"
  by (simp_all add: testLib_def insertionSort_contract)

lemma collect_testClient:
  "fst (collect testLib (New 5000000000) testClient testNow) = Inr testSnapshot"
  by code_simp

lemma collect_downClient:
  "fst (collect L c downClient now) = Inl ''connection refused''"
  by (simp add: collect_def downClient_def)

lemma fallback_read:
  assumes "hasLastGood c" and "fst (collect L c cl now) = Inl e"
  shows "Snapshot (refresh L c cl now) clock =
      ((lastGood c)\<lparr>SourceOnline := False, SourceError := Some e, Stale := True,
                    Alerts := sourceUnreachable # Alerts (lastGood c)\<rparr>, True)"
proof -
  obtain a b d where r: "refresh L c cl now =
           c\<lparr>lastRateAt := a, lastInTotal := b, lastOutTotal := d,
             snapshot := (lastGood c)\<lparr>SourceOnline := False, SourceError := Some e, Stale := True,
                                        Alerts := sourceUnreachable # Alerts (lastGood c)\<rparr>,
             hasSnapshot := True\<rparr>"
    using refresh_fallback [OF assms(2) assms(1)] by blast
  have "Snapshot (refresh L c cl now) clock = ((snapshot (refresh L c cl now))\<lparr>Stale := True\<rparr>, True)"
    by (rule Snapshot_offline) (simp_all add: r)
  then show ?thesis
    by (simp add: r)
qed

lemma cold_read:
  assumes "\<not> hasLastGood c" and "fst (collect L c cl now) = Inl e"
  shows "Snapshot (refresh L c cl now) clock =
           (\<lparr>GeneratedAt = now, SourceOnline = False, SourceError = Some e,
             Device = zeroDeviceStatus, Folders = [], Remotes = [],
             Alerts = [sourceUnreachable], Stale = True\<rparr>, True)"
proof -
  obtain a b d where r: "refresh L c cl now =
           c\<lparr>lastRateAt := a, lastInTotal := b, lastOutTotal := d,
             snapshot := \<lparr>GeneratedAt = now, SourceOnline = False, SourceError = Some e,
                    Device = zeroDeviceStatus, Folders = [], Remotes = [], Alerts = [sourceUnreachable],
                    Stale = True\<rparr>,
             hasSnapshot := True\<rparr>"
    using refresh_cold [OF assms(2) assms(1)] by blast
  have "Snapshot (refresh L c cl now) clock = ((snapshot (refresh L c cl now))\<lparr>Stale := True\<rparr>, True)"
    by (rule Snapshot_offline) (simp_all add: r)
  then show ?thesis
    by (simp add: r)
qed

lemma healthyCollector_goodSince: "goodSince testLib healthyCollector testNow"
  unfolding healthyCollector_def by (rule goodSince.success) (rule collect_testClient)

lemma healthyCollector_lastGood: "hasLastGood healthyCollector"
  using goodSince_lastGood [OF healthyCollector_goodSince] by simp


section \<open>The claims\<close>

text \<open>
  C1. For every collector whose last-known-good snapshot exists, if the next poll fails
  with error \<open>e\<close>, the snapshot read afterwards (at any time) is available, has
  \<open>source_online = false\<close>, \<open>source_error = e\<close>, \<open>stale = true\<close>, the device, folders and
  remotes of the last good snapshot, the critical \<^verbatim>\<open>SOURCE_UNREACHABLE\<close> alert in front
  of the alerts of the last good snapshot, and the \<open>generated_at\<close> of the last good
  snapshot, which is the time of the last successful collection for every collector that
  refreshes have produced.
\<close>

theorem fallback_snapshot:
  assumes "hasLastGood c" and "fst (collect L c cl now) = Inl e"
  shows "snd (Snapshot (refresh L c cl now) clock) \<and>
         \<not> SourceOnline (fst (Snapshot (refresh L c cl now) clock)) \<and>
         SourceError (fst (Snapshot (refresh L c cl now) clock)) = Some e \<and>
         Stale (fst (Snapshot (refresh L c cl now) clock)) \<and>
         Device (fst (Snapshot (refresh L c cl now) clock)) = Device (lastGood c) \<and>
         Folders (fst (Snapshot (refresh L c cl now) clock)) = Folders (lastGood c) \<and>
         Remotes (fst (Snapshot (refresh L c cl now) clock)) = Remotes (lastGood c) \<and>
         Alerts (fst (Snapshot (refresh L c cl now) clock)) =
           \<lparr>Severity = ''critical'', Code = ''SOURCE_UNREACHABLE'',
            Message = ''Syncthing API is unreachable'', SubjectID = ''syncthing''\<rparr> # Alerts (lastGood c) \<and>
         GeneratedAt (fst (Snapshot (refresh L c cl now) clock)) = GeneratedAt (lastGood c) \<and>
         (\<forall>t. goodSince L c t \<longrightarrow> GeneratedAt (fst (Snapshot (refresh L c cl now) clock)) = t)"
  using goodSince_lastGood [of L c]
  by (simp add: fallback_read [OF assms] sourceUnreachable_def)

theorem fallback_snapshot_witness:
  "hasLastGood healthyCollector \<and>
   fst (collect testLib healthyCollector downClient (testNow + 5000000000)) = Inl ''connection refused'' \<and>
   goodSince testLib healthyCollector testNow \<and>
   snd (Snapshot (refresh testLib healthyCollector downClient (testNow + 5000000000)) (testNow + 6000000000)) \<and>
   \<not> SourceOnline (fst (Snapshot (refresh testLib healthyCollector downClient (testNow + 5000000000)) (testNow + 6000000000))) \<and>
   Stale (fst (Snapshot (refresh testLib healthyCollector downClient (testNow + 5000000000)) (testNow + 6000000000))) \<and>
   Folders (fst (Snapshot (refresh testLib healthyCollector downClient (testNow + 5000000000)) (testNow + 6000000000))) =
     Folders (lastGood healthyCollector) \<and>
   GeneratedAt (fst (Snapshot (refresh testLib healthyCollector downClient (testNow + 5000000000)) (testNow + 6000000000))) = testNow"
proof -
  note f = fallback_snapshot [OF healthyCollector_lastGood collect_downClient,
      of testLib "testNow + 5000000000" "testNow + 6000000000"]
  from f have "GeneratedAt (fst (Snapshot (refresh testLib healthyCollector downClient
      (testNow + 5000000000)) (testNow + 6000000000))) = testNow"
    using healthyCollector_goodSince by blast
  with f show ?thesis
    using healthyCollector_lastGood collect_downClient healthyCollector_goodSince by simp
qed

text \<open>
  C2. For every snapshot that a refresh publishes and every read time, the snapshot that
  \<^verbatim>\<open>Snapshot\<close> returns is available and has \<open>stale = true\<close> if and only if its age at
  the read exceeds twice the poll interval or \<open>source_online\<close> is false. The poll interval
  is positive, as the configuration loader requires, and below \<open>2\<^sup>6\<^sup>2\<close> nanoseconds
  (146 years), so that twice the interval is a duration; the clock of the refresh does
  not read Go's zero time.
\<close>

theorem stale_at_read:
  assumes "0 < sint (pollInterval c)" and "sint (pollInterval c) < 2 ^ 62" and "now \<noteq> 0"
  shows "snd (Snapshot (refresh L c cl now) clock) \<and>
         (Stale (fst (Snapshot (refresh L c cl now) clock)) \<longleftrightarrow>
            2 * sint (pollInterval c) < clock - GeneratedAt (fst (Snapshot (refresh L c cl now) clock))
            \<or> \<not> SourceOnline (fst (Snapshot (refresh L c cl now) clock)))"
proof (cases "fst (collect L c cl now)")
  case (Inr s)
  obtain a b d where r: "refresh L c cl now =
           c\<lparr>lastRateAt := a, lastInTotal := b, lastOutTotal := d,
             snapshot := s\<lparr>GeneratedAt := now, SourceOnline := True, SourceError := None, Stale := False\<rparr>,
             lastGood := s\<lparr>GeneratedAt := now, SourceOnline := True, SourceError := None, Stale := False\<rparr>,
             hasSnapshot := True, hasLastGood := True\<rparr>"
    using refresh_ok [OF Inr] by blast
  show ?thesis
    using assms by (simp add: r Snapshot_def Let_def IsZero_def age_exceeds)
next
  case (Inl e)
  show ?thesis
  proof (cases "hasLastGood c")
    case True
    then show ?thesis
      by (simp add: fallback_read [OF True Inl])
  next
    case False
    then show ?thesis
      by (simp add: cold_read [OF False Inl])
  qed
qed

theorem stale_at_read_witness:
  "0 < sint (pollInterval (New 5000000000)) \<and> sint (pollInterval (New 5000000000)) < 2 ^ 62 \<and>
   testNow \<noteq> 0 \<and>
   SourceOnline (fst (Snapshot (refresh testLib (New 5000000000) testClient testNow) (testNow + 11000000000))) \<and>
   Stale (fst (Snapshot (refresh testLib (New 5000000000) testClient testNow) (testNow + 11000000000))) \<and>
   \<not> Stale (fst (Snapshot (refresh testLib (New 5000000000) testClient testNow) (testNow + 10000000000)))"
proof -
  have pi: "pollInterval (New 5000000000) = 5000000000"
    by (simp add: New_def)
  have p: "0 < sint (pollInterval (New 5000000000))" "sint (pollInterval (New 5000000000)) < 2 ^ 62"
    by (simp_all add: pi)
  have n: "testNow \<noteq> 0"
    by (simp add: testNow_def)
  have g: "GeneratedAt (fst (Snapshot (refresh testLib (New 5000000000) testClient testNow) clock)) = testNow"
    and o: "SourceOnline (fst (Snapshot (refresh testLib (New 5000000000) testClient testNow) clock))"
    for clock
    using healthyCollector_goodSince goodSince_lastGood [of testLib healthyCollector testNow]
      refresh_ok [OF collect_testClient]
    by (auto simp: Snapshot_def Let_def)
  show ?thesis
    using stale_at_read [OF p n, of testLib testClient "testNow + 11000000000"]
      stale_at_read [OF p n, of testLib testClient "testNow + 10000000000"] p n
    by (simp add: g o pi)
qed

text \<open>
  C6. If a poll fails while no last-known-good snapshot exists, as when the very first
  poll fails, \<^verbatim>\<open>Snapshot\<close> still returns \<open>available = true\<close>, and the snapshot has the
  empty device, no folders and no remotes, \<open>source_online = false\<close>, \<open>stale = true\<close>,
  the error as \<open>source_error\<close>, and the critical \<^verbatim>\<open>SOURCE_UNREACHABLE\<close> alert as its
  only alert.
\<close>

theorem cold_start_snapshot:
  assumes "\<not> hasLastGood c" and "fst (collect L c cl now) = Inl e"
  shows "Snapshot (refresh L c cl now) clock =
           (\<lparr>GeneratedAt = now, SourceOnline = False, SourceError = Some e,
             Device = zeroDeviceStatus, Folders = [], Remotes = [],
             Alerts = [\<lparr>Severity = ''critical'', Code = ''SOURCE_UNREACHABLE'',
                        Message = ''Syncthing API is unreachable'', SubjectID = ''syncthing''\<rparr>],
             Stale = True\<rparr>, True)"
  by (simp add: cold_read [OF assms] sourceUnreachable_def)

theorem cold_start_snapshot_witness:
  "\<not> hasLastGood (New 5000000000) \<and>
   fst (collect testLib (New 5000000000) downClient testNow) = Inl ''connection refused'' \<and>
   Snapshot (refresh testLib (New 5000000000) downClient testNow) (testNow + 1000000000) =
     (\<lparr>GeneratedAt = testNow, SourceOnline = False, SourceError = Some ''connection refused'',
       Device = zeroDeviceStatus, Folders = [], Remotes = [],
       Alerts = [\<lparr>Severity = ''critical'', Code = ''SOURCE_UNREACHABLE'',
                  Message = ''Syncthing API is unreachable'', SubjectID = ''syncthing''\<rparr>],
       Stale = True\<rparr>, True)"
proof -
  have a: "\<not> hasLastGood (New 5000000000)"
    by (simp add: New_def)
  show ?thesis
    using a collect_downClient [of testLib "New 5000000000" testNow]
      cold_start_snapshot [OF a collect_downClient, of testLib testNow "testNow + 1000000000"]
    by simp
qed

text \<open>
  C10. After a successful poll followed by any number of failed polls, one more failed
  poll publishes a snapshot with exactly one \<^verbatim>\<open>SOURCE_UNREACHABLE\<close> alert, at index 0:
  its alerts are that alert in front of the alerts of the last-known-good snapshot, which
  the failed poll leaves as it was. The collector is then again one whose polls have
  failed since that success, so the same holds after the next failure.
\<close>

theorem one_source_alert:
  assumes "goodSince L c t" and "fst (collect L c cl now) = Inl e"
  shows "length (filter (\<lambda>a. Code a = ''SOURCE_UNREACHABLE'')
            (Alerts (fst (Snapshot (refresh L c cl now) clock)))) = 1 \<and>
         Code (Alerts (fst (Snapshot (refresh L c cl now) clock)) ! 0) = ''SOURCE_UNREACHABLE'' \<and>
         Alerts (fst (Snapshot (refresh L c cl now) clock)) = sourceUnreachable # Alerts (lastGood c) \<and>
         lastGood (refresh L c cl now) = lastGood c \<and>
         goodSince L (refresh L c cl now) t"
proof -
  have h: "hasLastGood c"
    and al: "Alerts (lastGood c) = deriveAlerts (Remotes (lastGood c)) (Folders (lastGood c))"
    using goodSince_lastGood [OF assms(1)] by simp_all
  obtain a b d where r: "refresh L c cl now =
           c\<lparr>lastRateAt := a, lastInTotal := b, lastOutTotal := d,
             snapshot := (lastGood c)\<lparr>SourceOnline := False, SourceError := Some e, Stale := True,
                                        Alerts := sourceUnreachable # Alerts (lastGood c)\<rparr>,
             hasSnapshot := True\<rparr>"
    using refresh_fallback [OF assms(2) h] by blast
  have s: "Alerts (fst (Snapshot (refresh L c cl now) clock)) = sourceUnreachable # Alerts (lastGood c)"
    by (simp add: fallback_read [OF h assms(2)])
  have "filter (\<lambda>a. Code a = ''SOURCE_UNREACHABLE'') (Alerts (lastGood c)) = []"
    unfolding al using deriveAlerts_no_source_alert by (auto simp: filter_empty_conv)
  then have "length (filter (\<lambda>a. Code a = ''SOURCE_UNREACHABLE'') (sourceUnreachable # Alerts (lastGood c))) = 1"
    by (simp add: sourceUnreachable_def)
  moreover have "Code ((sourceUnreachable # Alerts (lastGood c)) ! 0) = ''SOURCE_UNREACHABLE''"
    by (simp add: sourceUnreachable_def)
  moreover have "lastGood (refresh L c cl now) = lastGood c"
    by (simp add: r)
  moreover have "goodSince L (refresh L c cl now) t"
    using assms by (rule goodSince.failure)
  ultimately show ?thesis
    by (simp add: s)
qed

theorem one_source_alert_witness:
  "goodSince testLib healthyCollector testNow \<and>
   fst (collect testLib healthyCollector downClient (testNow + 5000000000)) = Inl ''connection refused'' \<and>
   fst (collect testLib (refresh testLib healthyCollector downClient (testNow + 5000000000)) downClient
          (testNow + 10000000000)) = Inl ''connection refused'' \<and>
   length (filter (\<lambda>a. Code a = ''SOURCE_UNREACHABLE'')
     (Alerts (fst (Snapshot
        (refresh testLib (refresh testLib healthyCollector downClient (testNow + 5000000000)) downClient
           (testNow + 10000000000))
        (testNow + 11000000000))))) = 1 \<and>
   Code (Alerts (fst (Snapshot
        (refresh testLib (refresh testLib healthyCollector downClient (testNow + 5000000000)) downClient
           (testNow + 10000000000))
        (testNow + 11000000000))) ! 0) = ''SOURCE_UNREACHABLE''"
proof -
  note first = one_source_alert [OF healthyCollector_goodSince collect_downClient,
      of "testNow + 5000000000" "testNow + 6000000000"]
  then have g: "goodSince testLib (refresh testLib healthyCollector downClient (testNow + 5000000000)) testNow"
    by simp
  note second = one_source_alert [OF g collect_downClient, of "testNow + 10000000000"
      "testNow + 11000000000"]
  show ?thesis
    using second [THEN conjunct1] second [THEN conjunct2, THEN conjunct1]
      healthyCollector_goodSince collect_downClient
    by simp
qed

text \<open>
  C5. Every folder of a successfully built snapshot comes from a configured folder with
  the same id, and from the answers of the DB-status and completion endpoints for that
  id: \<open>need_items\<close> and \<open>need_bytes\<close> are the completion endpoint's values clamped to be at
  least 0, hence never negative; \<open>global_bytes\<close> is the maximum of the two endpoints'
  global bytes; \<open>completion_pct\<close> is the completion endpoint's value when that lies in
  \<open>[0, 100]\<close> and is absent otherwise.
\<close>

theorem folder_refinement:
  assumes "sortContract (sort_Slice_folders L) (\<lambda>a b. fs_Label a < fs_Label b)"
    and "fst (collect L c cl now) = Inr s"
    and "f \<in> set (Folders s)"
  shows "\<exists>cfg folder dbStatus completion.
           GetConfig cl = Inr cfg \<and> folder \<in> set (cfg_Folders cfg) \<and> fs_ID f = cf_ID folder \<and>
           GetDBStatus cl (cf_ID folder) = Inr dbStatus \<and>
           GetDBCompletion cl (cf_ID folder) = Inr completion \<and>
           sint (fs_NeedItems f) = max 0 (sint (comp_NeedItems completion)) \<and>
           sint (fs_NeedBytes f) = max 0 (sint (comp_NeedBytes completion)) \<and>
           0 \<le> sint (fs_NeedItems f) \<and> 0 \<le> sint (fs_NeedBytes f) \<and>
           sint (fs_GlobalBytes f) = max (sint (db_GlobalBytes dbStatus)) (sint (comp_GlobalBytes completion)) \<and>
           fs_CompletionPct f =
             (if 0 \<le> Completion completion \<and> Completion completion \<le> 100
              then Some (Completion completion) else None)"
proof -
  obtain cfg folderStats folder dbStatus completion where
    o: "GetConfig cl = Inr cfg" "folder \<in> set (cfg_Folders cfg)"
       "GetDBStatus cl (cf_ID folder) = Inr dbStatus"
       "GetDBCompletion cl (cf_ID folder) = Inr completion"
    and f: "f = folderStatus L folderStats folder dbStatus completion"
    using folder_origin [OF assms] by blast
  have "fs_ID f = cf_ID folder"
    and "fs_CompletionPct f =
             (if 0 \<le> Completion completion \<and> Completion completion \<le> 100
              then Some (Completion completion) else None)"
    by (simp_all add: f folderStatus_def Let_def)
  then show ?thesis
    using o folderStatus_need [of L folderStats folder dbStatus completion]
      folderStatus_global [of L folderStats folder dbStatus completion]
    unfolding f [symmetric]
    by (intro exI [of _ cfg] exI [of _ folder] exI [of _ dbStatus] exI [of _ completion]) simp
qed

theorem folder_refinement_witness:
  "sortContract (sort_Slice_folders testLib) (\<lambda>a b. fs_Label a < fs_Label b) \<and>
   fst (collect testLib (New 5000000000) testClient testNow) = Inr testSnapshot \<and>
   testApp \<in> set (Folders testSnapshot) \<and>
   (\<exists>cfg folder dbStatus completion.
      GetConfig testClient = Inr cfg \<and> folder \<in> set (cfg_Folders cfg) \<and> fs_ID testApp = cf_ID folder \<and>
      GetDBStatus testClient (cf_ID folder) = Inr dbStatus \<and>
      GetDBCompletion testClient (cf_ID folder) = Inr completion \<and>
      sint (fs_NeedItems testApp) = max 0 (sint (comp_NeedItems completion)) \<and>
      sint (fs_NeedBytes testApp) = max 0 (sint (comp_NeedBytes completion)) \<and>
      0 \<le> sint (fs_NeedItems testApp) \<and> 0 \<le> sint (fs_NeedBytes testApp) \<and>
      sint (fs_GlobalBytes testApp) = max (sint (db_GlobalBytes dbStatus)) (sint (comp_GlobalBytes completion)) \<and>
      fs_CompletionPct testApp =
        (if 0 \<le> Completion completion \<and> Completion completion \<le> 100
         then Some (Completion completion) else None)) \<and>
   fs_NeedItems testApp = 12 \<and> fs_NeedBytes testApp = 3072 \<and> fs_CompletionPct testApp = Some 8.1"
proof -
  have m: "testApp \<in> set (Folders testSnapshot)"
    by (simp add: testSnapshot_def)
  show ?thesis
    using folder_refinement [OF testLib_contracts(1) collect_testClient m]
      testLib_contracts(1) collect_testClient m
    by (simp add: testApp_def)
qed

text \<open>
  C7 (as stated). The claim says that the folder state is the state that the DB-status
  endpoint reports, unless that state is blank or the folder is configured as paused. The
  code trims the reported state first: for the folder \<^verbatim>\<open>app\<close>, not paused, the
  endpoint reports the state \<^verbatim>\<open>" syncing"\<close> with a leading blank, which is not blank,
  and the folder state of the snapshot is \<^verbatim>\<open>"syncing"\<close>.
\<close>

theorem trimmed_folder_state:
  "fst (collect testLib (New 5000000000) paddedClient testNow) = Inr testSnapshot \<and>
   Folders testSnapshot = [testApp, testMedia] \<and> fs_ID testApp = ''app'' \<and>
   GetConfig paddedClient = Inr testConfig \<and>
   cfg_Folders testConfig ! 1 = \<lparr>cf_ID = ''app'', cf_Label = ''app'', cf_Path = ''/mnt/vault/app'', cf_Paused = False\<rparr> \<and>
   GetDBStatus paddedClient ''app'' = Inr (testDBStatus '' syncing'') \<and>
   db_State (testDBStatus '' syncing'') = '' syncing'' \<and>
   TrimSpace '' syncing'' \<noteq> [] \<and>
   fs_State testApp = ''syncing'' \<and>
   fs_State testApp \<noteq> db_State (testDBStatus '' syncing'')"
  by code_simp

text \<open>
  C7 (amended). For every folder of a successfully built snapshot, the folder state is
  the state that the DB-status endpoint reports with leading and trailing white space
  removed, \<^verbatim>\<open>unknown\<close> when nothing is left of it, and \<^verbatim>\<open>paused\<close> instead whenever
  the folder's configuration marks it paused; so a folder configured as paused whose DB
  status is \<^verbatim>\<open>syncing\<close> has the state \<^verbatim>\<open>paused\<close>.
\<close>

theorem folder_state:
  assumes "sortContract (sort_Slice_folders L) (\<lambda>a b. fs_Label a < fs_Label b)"
    and "fst (collect L c cl now) = Inr s"
    and "f \<in> set (Folders s)"
  shows "\<exists>cfg folder dbStatus.
           GetConfig cl = Inr cfg \<and> folder \<in> set (cfg_Folders cfg) \<and> fs_ID f = cf_ID folder \<and>
           GetDBStatus cl (cf_ID folder) = Inr dbStatus \<and>
           fs_State f =
             (if cf_Paused folder then ''paused''
              else if TrimSpace (db_State dbStatus) = [] then ''unknown''
              else TrimSpace (db_State dbStatus))"
proof -
  obtain cfg folderStats folder dbStatus completion where
    o: "GetConfig cl = Inr cfg" "folder \<in> set (cfg_Folders cfg)"
       "GetDBStatus cl (cf_ID folder) = Inr dbStatus"
    and f: "f = folderStatus L folderStats folder dbStatus completion"
    using folder_origin [OF assms] by blast
  have "fs_ID f = cf_ID folder"
    and "fs_State f =
             (if cf_Paused folder then ''paused''
              else if TrimSpace (db_State dbStatus) = [] then ''unknown''
              else TrimSpace (db_State dbStatus))"
    by (simp_all add: f folderStatus_def Let_def)
  with o show ?thesis by blast
qed

theorem folder_state_witness:
  "sortContract (sort_Slice_folders testLib) (\<lambda>a b. fs_Label a < fs_Label b) \<and>
   fst (collect testLib (New 5000000000) testClient testNow) = Inr testSnapshot \<and>
   testMedia \<in> set (Folders testSnapshot) \<and>
   (\<exists>cfg folder dbStatus.
      GetConfig testClient = Inr cfg \<and> folder \<in> set (cfg_Folders cfg) \<and> fs_ID testMedia = cf_ID folder \<and>
      GetDBStatus testClient (cf_ID folder) = Inr dbStatus \<and>
      fs_State testMedia =
        (if cf_Paused folder then ''paused''
         else if TrimSpace (db_State dbStatus) = [] then ''unknown''
         else TrimSpace (db_State dbStatus))) \<and>
   GetDBStatus testClient ''media'' = Inr (testDBStatus ''syncing'') \<and>
   fs_State testMedia = ''paused''"
proof -
  have m: "testMedia \<in> set (Folders testSnapshot)"
    by (simp add: testSnapshot_def)
  show ?thesis
    using folder_state [OF testLib_contracts(1) collect_testClient m]
      testLib_contracts(1) collect_testClient m
    by (simp add: testMedia_def testClient_def)
qed

text \<open>
  C8. The alerts of every successfully built snapshot are the list the specification
  describes: first a critical \<^verbatim>\<open>REMOTE_DISCONNECTED\<close> alert for every remote that is not
  connected, in the order of the remotes; then, in the order of the folders, a critical
  \<^verbatim>\<open>FOLDER_ERROR\<close> alert for every folder in state \<^verbatim>\<open>error\<close>, and a warn
  \<^verbatim>\<open>FOLDER_OUT_OF_SYNC\<close> alert for every other folder whose \<open>need_items\<close> or
  \<open>need_bytes\<close> is not zero.
\<close>

theorem alerts_as_specified:
  assumes "sortContract (sort_Slice_folders L) (\<lambda>a b. fs_Label a < fs_Label b)"
    and "fst (collect L c cl now) = Inr s"
  shows "Alerts s = specifiedAlerts (Remotes s) (Folders s)"
proof -
  have "\<forall>f \<in> set (Folders s). 0 \<le> sint (fs_NeedItems f) \<and> 0 \<le> sint (fs_NeedBytes f)"
  proof
    fix f assume "f \<in> set (Folders s)"
    then obtain cfg folderStats folder dbStatus completion where
      "f = folderStatus L folderStats folder dbStatus completion"
      using folder_origin [OF assms] by blast
    then show "0 \<le> sint (fs_NeedItems f) \<and> 0 \<le> sint (fs_NeedBytes f)"
      using folderStatus_need [of L folderStats folder dbStatus completion] by simp
  qed
  then have "folderAlerts [] (Folders s) =
     concat (map (\<lambda>folder.
        if fs_State folder = ''error'' then [folderError folder]
        else if fs_NeedItems folder \<noteq> 0 \<or> fs_NeedBytes folder \<noteq> 0 then [folderOutOfSync folder]
        else []) (Folders s))"
    by (rule folderAlerts_concat)
  moreover have "Alerts s = deriveAlerts (Remotes s) (Folders s)"
    using collect_ok_shape [OF assms(2)] by simp
  ultimately show ?thesis
    using folderAlerts_append [of "remoteAlerts [] (Remotes s)" "Folders s"]
    by (simp add: deriveAlerts_def specifiedAlerts_def remoteAlerts_map)
qed

theorem alerts_as_specified_witness:
  "sortContract (sort_Slice_folders testLib) (\<lambda>a b. fs_Label a < fs_Label b) \<and>
   fst (collect testLib (New 5000000000) testClient testNow) = Inr testSnapshot \<and>
   Alerts testSnapshot = specifiedAlerts (Remotes testSnapshot) (Folders testSnapshot) \<and>
   specifiedAlerts [testRemote] [testApp, testMedia] =
     [remoteDisconnected testRemote, folderOutOfSync testApp, folderOutOfSync testMedia]"
proof -
  have "specifiedAlerts [testRemote] [testApp, testMedia] =
     [remoteDisconnected testRemote, folderOutOfSync testApp, folderOutOfSync testMedia]"
    by (simp add: specifiedAlerts_def testRemote_def testApp_def testMedia_def)
  then show ?thesis
    using alerts_as_specified [OF testLib_contracts(1) collect_testClient]
      testLib_contracts(1) collect_testClient
    by simp
qed

text \<open>
  C9 (as stated). The claim says that two runs on inputs that differ only in their order
  produce the same folder sequence. The folders \<^verbatim>\<open>a\<close> and \<^verbatim>\<open>b\<close> carry the same
  label; \<^verbatim>\<open>sort.Slice\<close> compares labels only and, on a slice this short, leaves equal
  elements where they are: configured as \<^verbatim>\<open>a, b\<close> they are published as
  \<^verbatim>\<open>a, b\<close>, and configured as \<^verbatim>\<open>b, a\<close> they are published as \<^verbatim>\<open>b, a\<close>.
\<close>

theorem equal_labels_keep_input_order:
  "[twinB, twinA] = rev [twinA, twinB] \<and>
   (case fst (collect testLib (New 5000000000) (twinClient [twinA, twinB]) testNow) of
      Inr s \<Rightarrow> map (\<lambda>f. (fs_ID f, fs_Label f)) (Folders s) | Inl e \<Rightarrow> []) =
     [(''a'', ''shared''), (''b'', ''shared'')] \<and>
   (case fst (collect testLib (New 5000000000) (twinClient [twinB, twinA]) testNow) of
      Inr s \<Rightarrow> map (\<lambda>f. (fs_ID f, fs_Label f)) (Folders s) | Inl e \<Rightarrow> []) =
     [(''b'', ''shared''), (''a'', ''shared'')]"
  by code_simp

text \<open>
  C9 (amended). For every successful poll cycle the folders of the snapshot are sorted by
  label and its remotes by name. For two runs on upstream inputs that differ only in the
  order of the configured folders and devices, the folder sequences are identical when
  the labels of the folders are pairwise distinct, and the remote sequences are identical
  when the names of the remotes are pairwise distinct. \<^verbatim>\<open>sort.Slice\<close> is any function
  that returns a sorted permutation, as the library promises.
\<close>

theorem sorted_and_order_independent:
  assumes cF: "sortContract (sort_Slice_folders L) (\<lambda>a b. fs_Label a < fs_Label b)"
    and cR: "sortContract (sort_Slice_remotes L) (\<lambda>a b. rd_Name a < rd_Name b)"
    and cfg1: "GetConfig cl = Inr cfg1"
    and pF: "mset (cfg_Folders cfg2) = mset (cfg_Folders cfg1)"
    and pD: "mset (Devices cfg2) = mset (Devices cfg1)"
    and ok1: "fst (collect L c1 cl now1) = Inr s1"
    and ok2: "fst (collect L c2 (cl\<lparr>GetConfig := Inr cfg2\<rparr>) now2) = Inr s2"
  shows "sorted (map fs_Label (Folders s1)) \<and> sorted (map rd_Name (Remotes s1)) \<and>
         sorted (map fs_Label (Folders s2)) \<and> sorted (map rd_Name (Remotes s2)) \<and>
         (distinct (map fs_Label (Folders s1)) \<longrightarrow> Folders s2 = Folders s1) \<and>
         (distinct (map rd_Name (Remotes s1)) \<longrightarrow> Remotes s2 = Remotes s1)"
proof -
  let ?cl2 = "cl\<lparr>GetConfig := Inr cfg2\<rparr>"
  obtain status connections deviceStats folderStats dbs1 where
    st: "GetSystemStatus cl = Inr status" and co: "GetSystemConnections cl = Inr connections"
    and ds: "GetDeviceStats cl = Inr deviceStats" and fs: "GetFolderStats cl = Inr folderStats"
    and dbs1: "fetchDBStatuses cl [] (cfg_Folders cfg1) = Inr dbs1"
    and f1: "Folders s1 = sort_Slice_folders L (\<lambda>a b. fs_Label a < fs_Label b)
             (map (\<lambda>folder. folderStatus L folderStats folder (dbStatusOf dbs1 (cf_ID folder))
                      (projr (GetDBCompletion cl (cf_ID folder)))) (cfg_Folders cfg1))"
    and r1: "Remotes s1 = sort_Slice_remotes L (\<lambda>a b. rd_Name a < rd_Name b)
             (map (remoteStatus L (Connections connections) deviceStats)
               (filter (\<lambda>deviceCfg. DeviceID deviceCfg \<noteq> MyID status) (Devices cfg1)))"
    using collect_ok_parts [OF ok1] cfg1 by auto
  obtain dbs2 where
    dbs2: "fetchDBStatuses ?cl2 [] (cfg_Folders cfg2) = Inr dbs2"
    and f2: "Folders s2 = sort_Slice_folders L (\<lambda>a b. fs_Label a < fs_Label b)
             (map (\<lambda>folder. folderStatus L folderStats folder (dbStatusOf dbs2 (cf_ID folder))
                      (projr (GetDBCompletion cl (cf_ID folder)))) (cfg_Folders cfg2))"
    and r2: "Remotes s2 = sort_Slice_remotes L (\<lambda>a b. rd_Name a < rd_Name b)
             (map (remoteStatus L (Connections connections) deviceStats)
               (filter (\<lambda>deviceCfg. DeviceID deviceCfg \<noteq> MyID status) (Devices cfg2)))"
    using collect_ok_parts [OF ok2] st co ds fs by auto
  let ?g1 = "\<lambda>folder. folderStatus L folderStats folder (dbStatusOf dbs1 (cf_ID folder))
                      (projr (GetDBCompletion cl (cf_ID folder)))"
  let ?g2 = "\<lambda>folder. folderStatus L folderStats folder (dbStatusOf dbs2 (cf_ID folder))
                      (projr (GetDBCompletion cl (cf_ID folder)))"
  have same: "?g2 folder = ?g1 folder" if in1: "folder \<in> set (cfg_Folders cfg1)" for folder
  proof -
    have in2: "folder \<in> set (cfg_Folders cfg2)"
      using in1 pF by (metis mset_eq_setD)
    obtain db1 where a: "GetDBStatus cl (cf_ID folder) = Inr db1" "map_of dbs1 (cf_ID folder) = Some db1"
      using fetch_lookup [OF dbs1 in1] by blast
    obtain db2 where b: "GetDBStatus ?cl2 (cf_ID folder) = Inr db2" "map_of dbs2 (cf_ID folder) = Some db2"
      using fetch_lookup [OF dbs2 in2] by blast
    from a b have "db1 = db2" by simp
    with a b show ?thesis by (simp add: dbStatusOf_def)
  qed
  have "image_mset ?g2 (mset (cfg_Folders cfg1)) = image_mset ?g1 (mset (cfg_Folders cfg1))"
    by (rule image_mset_cong) (simp add: same)
  then have mF: "mset (Folders s2) = mset (Folders s1)"
    using cF pF by (simp add: f1 f2 sortContract_def)
  have "mset (filter (\<lambda>deviceCfg. DeviceID deviceCfg \<noteq> MyID status) (Devices cfg2)) =
        mset (filter (\<lambda>deviceCfg. DeviceID deviceCfg \<noteq> MyID status) (Devices cfg1))"
    using pD by (simp only: mset_filter)
  then have mR: "mset (Remotes s2) = mset (Remotes s1)"
    using cR by (simp add: r1 r2 sortContract_def)
  have sF1: "sorted (map fs_Label (Folders s1))" and sF2: "sorted (map fs_Label (Folders s2))"
    using contract_sorted [OF cF] by (simp_all add: f1 f2)
  have sR1: "sorted (map rd_Name (Remotes s1))" and sR2: "sorted (map rd_Name (Remotes s2))"
    using contract_sorted [OF cR] by (simp_all add: r1 r2)
  have "Folders s2 = Folders s1" if dF: "distinct (map fs_Label (Folders s1))"
    using sorted_by_distinct_key_unique [OF mF [symmetric] sF1 sF2 dF] by simp
  moreover have "Remotes s2 = Remotes s1" if dR: "distinct (map rd_Name (Remotes s1))"
    using sorted_by_distinct_key_unique [OF mR [symmetric] sR1 sR2 dR] by simp
  ultimately show ?thesis
    using sF1 sF2 sR1 sR2 by blast
qed

lemma collect_swapped:
  "fst (collect testLib (New 5000000000) (testClient\<lparr>GetConfig := Inr swappedConfig\<rparr>) (testNow + 5000000000)) =
     Inr (testSnapshot\<lparr>GeneratedAt := testNow + 5000000000\<rparr>)"
  by code_simp

theorem sorted_and_order_independent_witness:
  "sortContract (sort_Slice_folders testLib) (\<lambda>a b. fs_Label a < fs_Label b) \<and>
   sortContract (sort_Slice_remotes testLib) (\<lambda>a b. rd_Name a < rd_Name b) \<and>
   GetConfig testClient = Inr testConfig \<and>
   mset (cfg_Folders swappedConfig) = mset (cfg_Folders testConfig) \<and>
   mset (Devices swappedConfig) = mset (Devices testConfig) \<and>
   cfg_Folders swappedConfig \<noteq> cfg_Folders testConfig \<and>
   fst (collect testLib (New 5000000000) testClient testNow) = Inr testSnapshot \<and>
   fst (collect testLib (New 5000000000) (testClient\<lparr>GetConfig := Inr swappedConfig\<rparr>) (testNow + 5000000000)) =
     Inr (testSnapshot\<lparr>GeneratedAt := testNow + 5000000000\<rparr>) \<and>
   sorted (map fs_Label (Folders testSnapshot)) \<and> sorted (map rd_Name (Remotes testSnapshot)) \<and>
   distinct (map fs_Label (Folders testSnapshot)) \<and> distinct (map rd_Name (Remotes testSnapshot)) \<and>
   Folders (testSnapshot\<lparr>GeneratedAt := testNow + 5000000000\<rparr>) = Folders testSnapshot \<and>
   Remotes (testSnapshot\<lparr>GeneratedAt := testNow + 5000000000\<rparr>) = Remotes testSnapshot"
proof -
  have g: "GetConfig testClient = Inr testConfig"
    by (simp add: testClient_def)
  have pF: "mset (cfg_Folders swappedConfig) = mset (cfg_Folders testConfig)"
    and pD: "mset (Devices swappedConfig) = mset (Devices testConfig)"
    by (simp_all add: swappedConfig_def)
  have ne: "cfg_Folders swappedConfig \<noteq> cfg_Folders testConfig"
    by (simp add: swappedConfig_def testConfig_def)
  have d: "distinct (map fs_Label (Folders testSnapshot))" "distinct (map rd_Name (Remotes testSnapshot))"
    by (simp_all add: testSnapshot_def testApp_def testMedia_def)
  show ?thesis
    using sorted_and_order_independent [OF testLib_contracts g pF pD collect_testClient collect_swapped]
      testLib_contracts g pF pD ne d collect_testClient collect_swapped
    by simp
qed




lemma sint_diff:
  fixes a b :: int64
  assumes "sint b \<le> sint a" and "sint a - sint b < 2 ^ 63"
  shows "sint (a - b) = sint a - sint b"
proof -
  have "sint (a - b) = signed_take_bit 63 (sint a - sint b)"
    by (simp add: sint_word_ariths)
  also have "\<dots> = sint a - sint b"
    using assms by (simp add: signed_take_bit_int_eq_self)
  finally show ?thesis .
qed

text \<open>
  C4 (as stated). The claim says that an upstream instantaneous rate that is not zero is
  preferred. With a previous sample recorded 100 ms earlier, counters that grew by 600
  bytes each, and an upstream rate of -8 bits per second in, which is not zero, the rates
  are the derived 6000 bytes per second and not the upstream's -1 and 0.
\<close>

theorem nonzero_rate_not_preferred:
  "BitsPerSecondIn (laterTotals (- 8)) \<noteq> 0 \<and>
   fst (currentRates sampledCollector (laterTotals (- 8)) (testNow + 100000000)) = (6000, 6000) \<and>
   (BitsPerSecondIn (laterTotals (- 8)) / 8, BitsPerSecondOut (laterTotals (- 8)) / 8) = (- 1, 0)"
  by code_simp

text \<open>
  C4 (amended). An upstream instantaneous rate above zero, in either direction, is
  preferred: the rates are then the upstream's bits per second divided by 8. Otherwise,
  on the first-ever sample, on a non-positive elapsed time and on a negative delta of
  either counter, the rates are again the upstream's rates; in every other case each
  rate is the delta of its byte counter divided by the elapsed seconds. In particular,
  with a previous sample, a positive elapsed time, counters that did not decrease and no
  upstream rate above zero, the rates are the differences of the counters divided by the
  elapsed time in seconds (the differences and the elapsed nanoseconds fit 64 bits).
\<close>

theorem rates_policy:
  "fst (currentRates c totals now) =
     (if 0 < BitsPerSecondIn totals \<or> 0 < BitsPerSecondOut totals
      then (BitsPerSecondIn totals / 8, BitsPerSecondOut totals / 8)
      else if lastRateAt c = 0 \<or> now \<le> lastRateAt c
        \<or> ct_InBytesTotal totals - lastInTotal c <s 0 \<or> ct_OutBytesTotal totals - lastOutTotal c <s 0
      then (BitsPerSecondIn totals / 8, BitsPerSecondOut totals / 8)
      else (float64 (ct_InBytesTotal totals - lastInTotal c) / Seconds (Sub now (lastRateAt c)),
            float64 (ct_OutBytesTotal totals - lastOutTotal c) / Seconds (Sub now (lastRateAt c)))) \<and>
   (\<not> 0 < BitsPerSecondIn totals \<and> \<not> 0 < BitsPerSecondOut totals \<and>
    lastRateAt c \<noteq> 0 \<and> lastRateAt c < now \<and> now - lastRateAt c < 2 ^ 63 \<and>
    sint (lastInTotal c) \<le> sint (ct_InBytesTotal totals) \<and>
    sint (ct_InBytesTotal totals) - sint (lastInTotal c) < 2 ^ 63 \<and>
    sint (lastOutTotal c) \<le> sint (ct_OutBytesTotal totals) \<and>
    sint (ct_OutBytesTotal totals) - sint (lastOutTotal c) < 2 ^ 63 \<longrightarrow>
    fst (currentRates c totals now) =
      (real_of_int (sint (ct_InBytesTotal totals) - sint (lastInTotal c)) /
         (real_of_int (now - lastRateAt c) / 1000000000),
       real_of_int (sint (ct_OutBytesTotal totals) - sint (lastOutTotal c)) /
         (real_of_int (now - lastRateAt c) / 1000000000)))"
proof (intro conjI impI)
  show "fst (currentRates c totals now) =
     (if 0 < BitsPerSecondIn totals \<or> 0 < BitsPerSecondOut totals
      then (BitsPerSecondIn totals / 8, BitsPerSecondOut totals / 8)
      else if lastRateAt c = 0 \<or> now \<le> lastRateAt c
        \<or> ct_InBytesTotal totals - lastInTotal c <s 0 \<or> ct_OutBytesTotal totals - lastOutTotal c <s 0
      then (BitsPerSecondIn totals / 8, BitsPerSecondOut totals / 8)
      else (float64 (ct_InBytesTotal totals - lastInTotal c) / Seconds (Sub now (lastRateAt c)),
            float64 (ct_OutBytesTotal totals - lastOutTotal c) / Seconds (Sub now (lastRateAt c))))"
    by (simp add: currentRates_rates)
next
  assume h: "\<not> 0 < BitsPerSecondIn totals \<and> \<not> 0 < BitsPerSecondOut totals \<and>
    lastRateAt c \<noteq> 0 \<and> lastRateAt c < now \<and> now - lastRateAt c < 2 ^ 63 \<and>
    sint (lastInTotal c) \<le> sint (ct_InBytesTotal totals) \<and>
    sint (ct_InBytesTotal totals) - sint (lastInTotal c) < 2 ^ 63 \<and>
    sint (lastOutTotal c) \<le> sint (ct_OutBytesTotal totals) \<and>
    sint (ct_OutBytesTotal totals) - sint (lastOutTotal c) < 2 ^ 63"
  have i: "sint (ct_InBytesTotal totals - lastInTotal c) = sint (ct_InBytesTotal totals) - sint (lastInTotal c)"
    and o: "sint (ct_OutBytesTotal totals - lastOutTotal c) = sint (ct_OutBytesTotal totals) - sint (lastOutTotal c)"
    using h by (simp_all add: sint_diff)
  have e: "Seconds (Sub now (lastRateAt c)) = real_of_int (now - lastRateAt c) / 1000000000"
    using h by (simp add: Seconds_Sub_exact)
  have "\<not> ct_InBytesTotal totals - lastInTotal c <s 0" "\<not> ct_OutBytesTotal totals - lastOutTotal c <s 0"
    using h by (simp_all add: word_sless_alt i o)
  then show "fst (currentRates c totals now) =
      (real_of_int (sint (ct_InBytesTotal totals) - sint (lastInTotal c)) /
         (real_of_int (now - lastRateAt c) / 1000000000),
       real_of_int (sint (ct_OutBytesTotal totals) - sint (lastOutTotal c)) /
         (real_of_int (now - lastRateAt c) / 1000000000))"
    using h by (simp add: currentRates_rates float64_def i o e)
qed

theorem rates_policy_witness:
  "\<not> 0 < BitsPerSecondIn (laterTotals 0) \<and> \<not> 0 < BitsPerSecondOut (laterTotals 0) \<and>
   lastRateAt sampledCollector = testNow \<and> testNow \<noteq> 0 \<and>
   (testNow + 100000000) - lastRateAt sampledCollector = 100000000 \<and>
   sint (ct_InBytesTotal (laterTotals 0)) - sint (lastInTotal sampledCollector) = 600 \<and>
   sint (ct_OutBytesTotal (laterTotals 0)) - sint (lastOutTotal sampledCollector) = 600 \<and>
   fst (currentRates sampledCollector (laterTotals 0) (testNow + 100000000)) = (6000, 6000) \<and>
   fst (currentRates sampledCollector (laterTotals 8000) (testNow + 100000000)) = (1000, 0) \<and>
   fst (currentRates (New 5000000000) (laterTotals 0) testNow) = (0, 0)"
proof -
  have f: "\<not> 0 < BitsPerSecondIn (laterTotals 0)" "\<not> 0 < BitsPerSecondOut (laterTotals 0)"
    "lastRateAt sampledCollector = testNow" "testNow \<noteq> 0"
    "(testNow + 100000000) - lastRateAt sampledCollector = 100000000"
    "sint (ct_InBytesTotal (laterTotals 0)) - sint (lastInTotal sampledCollector) = 600"
    "sint (ct_OutBytesTotal (laterTotals 0)) - sint (lastOutTotal sampledCollector) = 600"
    by (simp_all add: laterTotals_def sampledCollector_def testNow_def)
  have a: "fst (currentRates sampledCollector (laterTotals 0) (testNow + 100000000)) = (6000, 6000)"
    using rates_policy [of sampledCollector "laterTotals 0" "testNow + 100000000", THEN conjunct2] f
    by simp
  have b: "fst (currentRates sampledCollector (laterTotals 8000) (testNow + 100000000)) = (1000, 0)"
    using rates_policy [of sampledCollector "laterTotals 8000" "testNow + 100000000", THEN conjunct1]
    by (simp add: laterTotals_def)
  have c: "fst (currentRates (New 5000000000) (laterTotals 0) testNow) = (0, 0)"
    using rates_policy [of "New 5000000000" "laterTotals 0" testNow, THEN conjunct1]
    by (simp add: laterTotals_def New_def)
  show ?thesis
    using f a b c by simp
qed

end
